theory Spec2Isabelle
  imports Complex_Main "HOL-Library.Word"
begin

section \<open>Score normalisation (services/geminiService.ts, evaluatePresentation)\<close>

text \<open>
  A JavaScript number is modelled by the rational it denotes: every finite double is a
  rational, and the arithmetic below is exact, so the rounding error of double arithmetic
  is not part of the model. A raw score as the parsed response delivers it is a number, or
  one of the values the normaliser tests for: \<open>undefined\<close> (the property is absent),
  \<open>null\<close> and \<open>NaN\<close>.
\<close>

datatype raw_score = Absent | Null | NaN | Num rat

text \<open>\<open>Math.round\<close>: the nearest integer, a tie going upwards.\<close>

definition Math_round :: "rat \<Rightarrow> rat" where
  "Math_round x = of_int \<lfloor>x + 1 / 2\<rfloor>"

text \<open>
  The normaliser of the current (second) revision of the file:
  \<^verbatim>\<open>
  const normalize = (val: number | undefined): number => {
    if (val === undefined || val === null) return 0;
    let v = Number(val);
    if (isNaN(v)) return 0;
    if (v > 0 && v < 1) v = v * 10;
    if (v > 10) v = v / 10;
    return Math.min(10, Math.max(0, Math.round(v * 10) / 10));
  };
  \<close>
\<close>

definition normalize_score :: "raw_score \<Rightarrow> rat" where
  "normalize_score val =
     (case val of
        Absent \<Rightarrow> 0
      | Null \<Rightarrow> 0
      | NaN \<Rightarrow> 0
      | Num x \<Rightarrow>
          (let v = x;
               v = (if v > 0 \<and> v < 1 then v * 10 else v);
               v = (if v > 10 then v / 10 else v)
           in min 10 (max 0 (Math_round (v * 10) / 10))))"

text \<open>
  The normaliser of the first revision:
  \<^verbatim>\<open>
  const normalize = (val: number | undefined) => {
    let v = val || 0;
    if (v > 0 && v <= 1) v = v * 10;
    return Math.min(10, Math.max(0, Math.round(v * 10) / 10));
  };
  \<close>
  \<open>val || 0\<close> replaces every falsy value (\<open>undefined\<close>, \<open>null\<close>, \<open>NaN\<close>, \<open>0\<close>) by 0.
\<close>

definition normalize_rev1 :: "raw_score \<Rightarrow> rat" where
  "normalize_rev1 val =
     (let v = (case val of Num x \<Rightarrow> (if x = 0 then 0 else x) | _ \<Rightarrow> 0);
          v = (if v > 0 \<and> v \<le> 1 then v * 10 else v)
      in min 10 (max 0 (Math_round (v * 10) / 10)))"


text \<open>
  The object the evaluator's callback builds from the parsed response \<open>raw\<close>. The six
  dimension properties are read from \<open>raw\<close>; everything else \<open>raw\<close> holds (transcript,
  feedback, mistakes, suggestions, ...) is copied by the spread \<open>...raw\<close> and is carried
  here in one field. The date string comes from the clock and is an argument.
\<close>

datatype CEFRLevel = Starters | Movers | Flyers | A1 | A2 | B1 | B2 | C1 | C2

record 'p raw_evaluation =
  raw_pronunciation :: raw_score
  raw_fluency :: raw_score
  raw_intonation :: raw_score
  raw_vocabulary :: raw_score
  raw_grammar :: raw_score
  raw_taskFulfillment :: raw_score
  raw_other :: 'p

record 'p EvaluationResult =
  pronunciation :: rat
  fluency :: rat
  intonation :: rat
  vocabulary :: rat
  grammar :: rat
  taskFulfillment :: rat
  score :: rat
  perceivedLevel :: CEFRLevel
  keyVocabulary :: "string list"
  evaluationDate :: string
  other :: 'p

text \<open>
  Second revision:
  \<^verbatim>\<open>
  const avg = (scores.pronunciation + scores.fluency + scores.intonation
             + scores.vocabulary + scores.grammar + scores.taskFulfillment) / 6;
  const finalScore = Math.round(avg * 10) / 10;
  return { ...raw, ...scores, score: finalScore, perceivedLevel: level,
           keyVocabulary: [], evaluationDate: ... };
  \<close>
\<close>

definition evaluation_result ::
    "'p raw_evaluation \<Rightarrow> CEFRLevel \<Rightarrow> string \<Rightarrow> 'p EvaluationResult" where
  "evaluation_result raw level today =
     (let pr = normalize_score (raw_pronunciation raw);
          fl = normalize_score (raw_fluency raw);
          it = normalize_score (raw_intonation raw);
          vo = normalize_score (raw_vocabulary raw);
          gr = normalize_score (raw_grammar raw);
          tf = normalize_score (raw_taskFulfillment raw);
          avg = (pr + fl + it + vo + gr + tf) / 6;
          finalScore = Math_round (avg * 10) / 10
      in \<lparr>pronunciation = pr, fluency = fl, intonation = it, vocabulary = vo,
          grammar = gr, taskFulfillment = tf, score = finalScore,
          perceivedLevel = level, keyVocabulary = [], evaluationDate = today,
          other = raw_other raw\<rparr>)"

text \<open>First revision: the aggregate is \<open>score: normalize(avg)\<close>, with that revision's normaliser.\<close>

definition evaluation_result_rev1 ::
    "'p raw_evaluation \<Rightarrow> CEFRLevel \<Rightarrow> string \<Rightarrow> 'p EvaluationResult" where
  "evaluation_result_rev1 raw level today =
     (let pr = normalize_rev1 (raw_pronunciation raw);
          fl = normalize_rev1 (raw_fluency raw);
          it = normalize_rev1 (raw_intonation raw);
          vo = normalize_rev1 (raw_vocabulary raw);
          gr = normalize_rev1 (raw_grammar raw);
          tf = normalize_rev1 (raw_taskFulfillment raw);
          avg = (pr + fl + it + vo + gr + tf) / 6
      in \<lparr>pronunciation = pr, fluency = fl, intonation = it, vocabulary = vo,
          grammar = gr, taskFulfillment = tf, score = normalize_rev1 (Num avg),
          perceivedLevel = level, keyVocabulary = [], evaluationDate = today,
          other = raw_other raw\<rparr>)"

section \<open>Settings and the candidate model list\<close>

text \<open>
  Strings are lists of bytes, the UTF-8 encoding of the source's text; a byte outside
  ASCII is written by its code. The two values the browser's \<open>localStorage\<close> holds for
  the service: \<open>getItem\<close> gives \<open>null\<close> (here \<open>None\<close>) for a key that was never stored.
\<close>

record localStorage =
  gemini_api_key :: "string option"
  selected_model :: "string option"

text \<open>
  A thrown value, as far as the orchestrator inspects it: \<open>err?.message\<close>, \<open>err?.status\<close>
  (when it is a number) and the text \<open>JSON.stringify(err)\<close> gives (\<open>None\<close> when it gives
  \<open>undefined\<close>). \<open>new Error(m)\<close> has the message \<open>m\<close>, no status, and is stringified
  to \<open>{}\<close>, its message not being enumerable. The thrown values covered are those whose
  message is a string or absent and which \<open>JSON.stringify\<close> can print: for any other
  (a message that is a number or an object, a value with a cycle) the orchestrator's
  \<open>catch\<close> block itself throws, which the model does not follow. Likewise the reads of
  \<open>localStorage\<close> are taken to return.
\<close>

record js_error =
  message :: "string option"
  status :: "int option"
  stringified :: "string option"

definition new_Error :: "string \<Rightarrow> js_error" where
  "new_Error m = \<lparr>message = Some m, status = None, stringified = Some ''{}''\<rparr>"

definition FALLBACK_MODELS :: "string list" where
  "FALLBACK_MODELS = [''gemini-3-flash-preview'', ''gemini-3-pro-preview'', ''gemini-2.5-flash'']"

definition MISSING_API_KEY_MESSAGE :: string where
  "MISSING_API_KEY_MESSAGE =
     ''CH'' @ [CHR 0xC6, CHR 0xAF] @ ''A C'' @ [CHR 0xC3, CHR 0x93] @ '' API KEY: B''
     @ [CHR 0xC3, CHR 0xA9] @ '' vui l'' @ [CHR 0xC3, CHR 0xB2] @ ''ng nh''
     @ [CHR 0xE1, CHR 0xBA, CHR 0xA5] @ ''n n'' @ [CHR 0xC3, CHR 0xBA] @ ''t ''
     @ [CHR 0xE2, CHR 0x9A, CHR 0x99, CHR 0xEF, CHR 0xB8, CHR 0x8F] @ '' Settings ''
     @ [CHR 0xC4, CHR 0x91, CHR 0xE1, CHR 0xBB, CHR 0x83] @ '' nh''
     @ [CHR 0xE1, CHR 0xBA, CHR 0xAD] @ ''p API Key nh'' @ [CHR 0xC3, CHR 0xA9] @ ''!''"

text \<open>
  \<^verbatim>\<open>
  export function getApiKey(): string {
    const key = localStorage.getItem('gemini_api_key') || '';
    if (!key) { throw new Error('CH... API KEY: ...'); }
    return key;
  }
  \<close>
\<close>

definition getApiKey :: "localStorage \<Rightarrow> js_error + string" where
  "getApiKey ls =
     (let key = (case gemini_api_key ls of None \<Rightarrow> [] | Some k \<Rightarrow> k)
      in if key = [] then Inl (new_Error MISSING_API_KEY_MESSAGE) else Inr key)"

text \<open>\<open>return localStorage.getItem('selected_model') || 'gemini-3-flash-preview';\<close>\<close>

definition getSelectedModel :: "localStorage \<Rightarrow> string" where
  "getSelectedModel ls =
     (case selected_model ls of
        None \<Rightarrow> ''gemini-3-flash-preview''
      | Some m \<Rightarrow> if m = [] then ''gemini-3-flash-preview'' else m)"

text \<open>
  \<^verbatim>\<open>
  function getFallbackModels(): string[] {
    const primary = getSelectedModel();
    const others = FALLBACK_MODELS.filter(m => m !== primary);
    return [primary, ...others];
  }
  \<close>
\<close>

definition getFallbackModels :: "localStorage \<Rightarrow> string list" where
  "getFallbackModels ls =
     (let primary = getSelectedModel ls;
          others = filter (\<lambda>m. m \<noteq> primary) FALLBACK_MODELS
      in primary # others)"

section \<open>Audio decoding\<close>

text \<open>
  A \<open>Uint8Array\<close> is a window on an \<open>ArrayBuffer\<close>: the buffer's bytes, the offset of
  the window's first byte and the number of bytes in the window. Its elements are the
  bytes of the window.
\<close>

record Uint8Array =
  buffer :: "8 word list"
  byteOffset :: nat
  byteLength :: nat

definition elements :: "Uint8Array \<Rightarrow> 8 word list" where
  "elements a = take (byteLength a) (drop (byteOffset a) (buffer a))"

text \<open>
  \<^verbatim>\<open>
  export function decode(base64: string) {
    const binaryString = atob(base64);
    const bytes = new Uint8Array(binaryString.length);
    for (let i = 0; i < binaryString.length; i++) bytes[i] = binaryString.charCodeAt(i);
    return bytes;
  }
  \<close>
  \<open>atob\<close> belongs to the platform and is an argument: it gives the binary string, a
  string of character codes below 256 (here the list of these codes), or the error it
  throws. \<open>new Uint8Array(n)\<close> allocates a buffer of its own, of \<open>n\<close> bytes, and the
  array is the window on all of it.
\<close>

definition decode :: "(string \<Rightarrow> 'e + 8 word list) \<Rightarrow> string \<Rightarrow> 'e + Uint8Array" where
  "decode atob base64 =
     (case atob base64 of
        Inl err \<Rightarrow> Inl err
      | Inr binaryString \<Rightarrow>
          Inr \<lparr>buffer = binaryString, byteOffset = 0, byteLength = length binaryString\<rparr>)"

text \<open>
  \<open>new Int16Array(arrayBuffer)\<close> views all the bytes of the buffer as 16-bit signed
  samples in the byte order of the platform, little-endian on every platform the
  application runs on, and throws a \<open>RangeError\<close> when the byte length is odd.
\<close>

datatype audio_error = RangeError | NotSupportedError

definition int16_le :: "8 word \<Rightarrow> 8 word \<Rightarrow> 16 word" where
  "int16_le lo hi = word_of_nat (unat lo + 256 * unat hi)"

fun Int16Array :: "8 word list \<Rightarrow> 16 word list option" where
  "Int16Array [] = Some []"
| "Int16Array [b] = None"
| "Int16Array (lo # hi # bs) = map_option ((#) (int16_le lo hi)) (Int16Array bs)"

text \<open>
  The audio context, as far as \<open>createBuffer\<close> depends on it: the channel counts and
  sample rates the platform supports. \<open>createBuffer\<close> throws a \<open>NotSupportedError\<close> for a
  channel count or a length of zero and for a value outside the supported range; the
  buffer it returns holds silence.
\<close>

record AudioContext =
  maxChannels :: nat
  minSampleRate :: nat
  maxSampleRate :: nat

record AudioBuffer =
  numberOfChannels :: nat
  frames :: nat
  sampleRate :: nat
  channelData :: "rat list list"

definition createBuffer :: "AudioContext \<Rightarrow> nat \<Rightarrow> nat \<Rightarrow> nat \<Rightarrow> audio_error + AudioBuffer" where
  "createBuffer ctx numChannels len rate =
     (if numChannels = 0 \<or> maxChannels ctx < numChannels \<or> len = 0
         \<or> rate < minSampleRate ctx \<or> maxSampleRate ctx < rate
      then Inl NotSupportedError
      else Inr \<lparr>numberOfChannels = numChannels, frames = len, sampleRate = rate,
                channelData = replicate numChannels (replicate len 0)\<rparr>)"

text \<open>
  \<^verbatim>\<open>
  export async function decodeAudioData(data, ctx, sampleRate, numChannels) {
    const dataInt16 = new Int16Array(data.buffer);
    const frameCount = dataInt16.length / numChannels;
    const buffer = ctx.createBuffer(numChannels, frameCount, sampleRate);
    for (let channel = 0; channel < numChannels; channel++) {
      const channelData = buffer.getChannelData(channel);
      for (let i = 0; i < frameCount; i++)
        channelData[i] = dataInt16[i * numChannels + channel] / 32768.0;
    }
    return buffer;
  }
  \<close>
  The samples are read from \<open>data.buffer\<close>, the whole buffer under the array, whatever
  the array's window is. \<open>createBuffer\<close> truncates a fractional \<open>frameCount\<close> (and takes
  the \<open>Infinity\<close> or \<open>NaN\<close> of a division by zero for 0); a write past the end of a
  channel's array is ignored, so the inner loop fills the indices below the truncated
  count. A sample divided by 32768 is exact as a double and as the 32-bit float the
  channel stores, so the rational is the stored value.
\<close>

definition decodeAudioData ::
    "Uint8Array \<Rightarrow> AudioContext \<Rightarrow> nat \<Rightarrow> nat \<Rightarrow> audio_error + AudioBuffer" where
  "decodeAudioData data ctx rate numChannels =
     (case Int16Array (buffer data) of
        None \<Rightarrow> Inl RangeError
      | Some dataInt16 \<Rightarrow>
          (let frameCount = (if numChannels = 0 then 0 else length dataInt16 div numChannels)
           in case createBuffer ctx numChannels frameCount rate of
                Inl e \<Rightarrow> Inl e
              | Inr audioBuffer \<Rightarrow>
                  Inr (audioBuffer\<lparr>channelData :=
                         map (\<lambda>channel.
                                map (\<lambda>i. of_int (sint (dataInt16 ! (i * numChannels + channel))) / 32768)
                                    [0..<frameCount])
                             [0..<numChannels]\<rparr>)))"

section \<open>Retry with model fallback\<close>

subsection \<open>Strings\<close>

text \<open>
  \<open>toLowerCase\<close>, on the letters that matter to the orchestrator: the ASCII letters and
  the two capital letters whose lower case occurs in the timeout marker (U+00C1, bytes
  C3 81, and U+1EDC, bytes E1 BB 9C). The other code points are left as they are: in
  well-formed text their lower-casing neither makes nor destroys an occurrence of one of
  the three markers the orchestrator searches for, so the searches below find what they
  find in the source.
\<close>

definition lower_ascii :: "char \<Rightarrow> char" where
  "lower_ascii c =
     (if 65 \<le> (of_char c :: nat) \<and> (of_char c :: nat) \<le> 90
      then char_of ((of_char c :: nat) + 32) else c)"

fun toLowerCase :: "string \<Rightarrow> string" where
  "toLowerCase [] = []"
| "toLowerCase (c # cs) =
     (if c = CHR 0xC3 \<and> take 1 cs = [CHR 0x81]
      then CHR 0xC3 # CHR 0xA1 # toLowerCase (drop 1 cs)
      else if c = CHR 0xE1 \<and> take 2 cs = [CHR 0xBB, CHR 0x9C]
      then CHR 0xE1 # CHR 0xBB # CHR 0x9D # toLowerCase (drop 2 cs)
      else lower_ascii c # toLowerCase cs)"

text \<open>\<open>s.includes(sub)\<close>: \<open>sub\<close> occurs in \<open>s\<close> as a contiguous run.\<close>

fun str_includes :: "string \<Rightarrow> string \<Rightarrow> bool" where
  "str_includes [] sub = (sub = [])"
| "str_includes (c # cs) sub = (take (length sub) (c # cs) = sub \<or> str_includes cs sub)"

text \<open>The decimal digits of a non-negative integer, as a template literal prints it.\<close>

definition digit_char :: "nat \<Rightarrow> char" where
  "digit_char d = char_of (of_char (CHR ''0'') + d)"

fun decimal_digits :: "nat \<Rightarrow> string" where
  "decimal_digits n =
     (if 10 \<le> n then decimal_digits (n div 10) @ [digit_char (n mod 10)]
      else [digit_char n])"

subsection \<open>The timeout guard\<close>

text \<open>
  What a promise has done when the guard's timer fires: it has resolved, it has rejected,
  or it is still pending. \<open>withTimeout\<close> settles with the promise's outcome in the first
  two cases and rejects with its own error in the third:
  \<^verbatim>\<open>
  reject(new Error(`<stopwatch> ${label} qu\'a th\`oi gian (${Math.round(ms / 1000)}s). ...`))
  \<close>
  The outcome of the guarded promise is a sum: \<open>Inl\<close> the error caught, \<open>Inr\<close> the value.
\<close>

datatype 'a promise = Resolves 'a | Rejects js_error | Pending

definition TIMEOUT_MARKER :: string where
  "TIMEOUT_MARKER = ''qu'' @ [CHR 0xC3, CHR 0xA1] @ '' th'' @ [CHR 0xE1, CHR 0xBB, CHR 0x9D] @ ''i gian''"

definition timeout_message :: "string \<Rightarrow> nat \<Rightarrow> string" where
  "timeout_message label ms =
     [CHR 0xE2, CHR 0x8F, CHR 0xB1, CHR 0xEF, CHR 0xB8, CHR 0x8F] @ '' '' @ label @ '' ''
     @ ''qu'' @ [CHR 0xC3, CHR 0xA1] @ '' th'' @ [CHR 0xE1, CHR 0xBB, CHR 0x9D] @ ''i gian''
     @ '' ('' @ decimal_digits ((ms + 500) div 1000)
     @ ''s). B'' @ [CHR 0xC3, CHR 0xA9] @ '' h'' @ [CHR 0xC3, CHR 0xA3] @ ''y th''
     @ [CHR 0xE1, CHR 0xBB, CHR 0xAD] @ '' l'' @ [CHR 0xE1, CHR 0xBA, CHR 0xA1] @ ''i nh''
     @ [CHR 0xC3, CHR 0xA9] @ ''!''"

definition withTimeout :: "'a promise \<Rightarrow> nat \<Rightarrow> string \<Rightarrow> js_error + 'a" where
  "withTimeout promise ms label =
     (case promise of
        Resolves val \<Rightarrow> Inr val
      | Rejects err \<Rightarrow> Inl err
      | Pending \<Rightarrow> Inl (new_Error (timeout_message label ms)))"

subsection \<open>The classification of a caught error\<close>

text \<open>
  \<^verbatim>\<open>
  const errorStr = (err?.message || JSON.stringify(err) || '').toLowerCase();
  const isQuotaError = err?.status === 429 || errorStr.includes('quota')
                       || errorStr.includes('resource_exhausted');
  const isTimeoutError = errorStr.includes('qu\'a th\`oi gian');
  \<close>
  \<open>a || b\<close> on strings takes \<open>b\<close> when \<open>a\<close> is undefined or empty.
\<close>

definition or_else :: "string option \<Rightarrow> string option \<Rightarrow> string option" where
  "or_else a b = (case a of None \<Rightarrow> b | Some s \<Rightarrow> if s = [] then b else Some s)"

definition errorStr :: "js_error \<Rightarrow> string" where
  "errorStr err =
     toLowerCase (case or_else (message err) (or_else (stringified err) (Some [])) of
                    None \<Rightarrow> [] | Some s \<Rightarrow> s)"

definition isQuotaError :: "js_error \<Rightarrow> bool" where
  "isQuotaError err =
     (status err = Some 429 \<or> str_includes (errorStr err) ''quota''
      \<or> str_includes (errorStr err) ''resource_exhausted'')"

definition isTimeoutError :: "js_error \<Rightarrow> bool" where
  "isTimeoutError err = str_includes (errorStr err) TIMEOUT_MARKER"

subsection \<open>The orchestrator\<close>

text \<open>
  The attempt callback \<open>fn\<close> acts on the world outside (the service, its quotas): it takes
  the model and the state of that world and gives the promise's outcome and the new
  state. What the orchestrator does besides is recorded as a trace: each invocation of the
  callback and each backoff wait with its delay in milliseconds. The logging to the
  console is left out.
\<close>

datatype event = Invoke string | Wait rat

record 's run_state =
  lastError :: "js_error option"
  world :: 's
  trace :: "event list"

text \<open>
  The inner loop, from \<open>attempt\<close> on with the current \<open>delay\<close>; \<open>Some\<close> is the value
  returned from inside the loop, \<open>None\<close> is leaving the loop for the next model:
  \<^verbatim>\<open>
  for (let attempt = 0; attempt < maxRetriesPerModel; attempt++) {
    try {
      return await withTimeout(fn(model), timeoutMs, `Model ${model}`);
    } catch (err: any) {
      lastError = err;
      ...
      if (isTimeoutError) { break; }
      if (isQuotaError && attempt < maxRetriesPerModel - 1) {
        await new Promise(resolve => setTimeout(resolve, delay));
        delay *= 2.5;
        continue;
      }
      break;
    }
  }
  \<close>
\<close>

function attempt_loop ::
    "(string \<Rightarrow> 's \<Rightarrow> 'a promise \<times> 's) \<Rightarrow> nat \<Rightarrow> nat \<Rightarrow> string \<Rightarrow> nat \<Rightarrow> rat
       \<Rightarrow> 's run_state \<Rightarrow> 'a option \<times> 's run_state" where
  "attempt_loop fn maxRetriesPerModel timeoutMs model attempt delay st =
     (if attempt < maxRetriesPerModel then
        (case fn model (world st) of
           (p, w) \<Rightarrow>
             (case withTimeout p timeoutMs (''Model '' @ model) of
                Inr val \<Rightarrow> (Some val, st\<lparr>world := w, trace := trace st @ [Invoke model]\<rparr>)
              | Inl err \<Rightarrow>
                  (let st1 = st\<lparr>lastError := Some err, world := w,
                                 trace := trace st @ [Invoke model]\<rparr>
                   in if isTimeoutError err then (None, st1)
                      else if isQuotaError err \<and> attempt < maxRetriesPerModel - 1
                      then attempt_loop fn maxRetriesPerModel timeoutMs model (attempt + 1)
                             (delay * (5 / 2)) (st1\<lparr>trace := trace st1 @ [Wait delay]\<rparr>)
                      else (None, st1))))
      else (None, st))"
  by pat_completeness auto
termination
  by (relation "measure (\<lambda>(fn, maxRetriesPerModel, timeoutMs, model, attempt, delay, st).
                           maxRetriesPerModel - attempt)") auto

text \<open>The outer loop \<open>for (const model of models) { let delay = 1500; ... }\<close>.\<close>

fun model_loop ::
    "(string \<Rightarrow> 's \<Rightarrow> 'a promise \<times> 's) \<Rightarrow> nat \<Rightarrow> nat \<Rightarrow> string list
       \<Rightarrow> 's run_state \<Rightarrow> 'a option \<times> 's run_state" where
  "model_loop fn maxRetriesPerModel timeoutMs [] st = (None, st)"
| "model_loop fn maxRetriesPerModel timeoutMs (model # models) st =
     (case attempt_loop fn maxRetriesPerModel timeoutMs model 0 1500 st of
        (Some val, st') \<Rightarrow> (Some val, st')
      | (None, st') \<Rightarrow> model_loop fn maxRetriesPerModel timeoutMs models st')"

text \<open>
  \<^verbatim>\<open>
  const errMsg = lastError?.message || JSON.stringify(lastError);
  throw new Error(`T... C... MODEL ... L...I: ${errMsg}\n\nB... h...y ki...m tra API Key ...`);
  \<close>
  An undefined \<open>errMsg\<close> is printed as \<open>undefined\<close>.
\<close>

definition errMsg :: "js_error option \<Rightarrow> string" where
  "errMsg lastErr =
     (case lastErr of
        None \<Rightarrow> ''undefined''
      | Some err \<Rightarrow>
          (case or_else (message err) (stringified err) of
             None \<Rightarrow> ''undefined'' | Some s \<Rightarrow> s))"

definition all_models_failed_message :: "string \<Rightarrow> string" where
  "all_models_failed_message m =
     ''T'' @ [CHR 0xE1, CHR 0xBA, CHR 0xA4] @ ''T C'' @ [CHR 0xE1, CHR 0xBA, CHR 0xA2]
     @ '' MODEL '' @ [CHR 0xC4, CHR 0x90, CHR 0xE1, CHR 0xBB, CHR 0x80] @ ''U L''
     @ [CHR 0xE1, CHR 0xBB, CHR 0x96] @ ''I: '' @ m
     @ [CHR 0x0A, CHR 0x0A] @ ''B'' @ [CHR 0xC3, CHR 0xA9] @ '' h'' @ [CHR 0xC3, CHR 0xA3]
     @ ''y ki'' @ [CHR 0xE1, CHR 0xBB, CHR 0x83] @ ''m tra API Key ho''
     @ [CHR 0xE1, CHR 0xBA, CHR 0xB7] @ ''c ch'' @ [CHR 0xE1, CHR 0xBB, CHR 0x9D]
     @ '' 30 gi'' @ [CHR 0xC3, CHR 0xA2] @ ''y r'' @ [CHR 0xE1, CHR 0xBB, CHR 0x93]
     @ ''i th'' @ [CHR 0xE1, CHR 0xBB, CHR 0xAD] @ '' l'' @ [CHR 0xE1, CHR 0xBA, CHR 0xA1]
     @ ''i nh'' @ [CHR 0xC3, CHR 0xA9] @ ''!''"

text \<open>
  \<open>callWithRetry\<close>: the value returned or the error thrown, with the state of the world
  it leaves and the trace of what it did.
\<close>

definition callWithRetry ::
    "(string \<Rightarrow> 's \<Rightarrow> 'a promise \<times> 's) \<Rightarrow> nat \<Rightarrow> nat \<Rightarrow> localStorage \<Rightarrow> 's
       \<Rightarrow> (js_error + 'a) \<times> 's \<times> event list" where
  "callWithRetry fn maxRetriesPerModel timeoutMs ls w =
     (let models = getFallbackModels ls
      in case model_loop fn maxRetriesPerModel timeoutMs models
                \<lparr>lastError = None, world = w, trace = []\<rparr> of
           (Some val, st) \<Rightarrow> (Inr val, world st, trace st)
         | (None, st) \<Rightarrow>
             (Inl (new_Error (all_models_failed_message (errMsg (lastError st)))),
              world st, trace st))"

section \<open>The API functions\<close>

text \<open>
  What an API function reads of the service's response: \<open>response.text\<close>, and for the
  voice \<open>response.candidates?.[0]?.content?.parts?.[0]?.inlineData?.data\<close>.
\<close>

record response =
  response_text :: "string option"
  response_audio :: "string option"

text \<open>
  Every API function passes \<open>callWithRetry\<close> a callback of one shape, and none overrides
  the defaults \<open>maxRetriesPerModel = 1\<close> and \<open>timeoutMs = 60000\<close>:
  \<^verbatim>\<open>
  async (model) => {
    const ai = new GoogleGenAI({ apiKey: getApiKey() });
    const response = await ai.models.generateContent({ model, ... });
    return <what the function makes of the response>;
  }
  \<close>
  \<open>generateContent\<close> is the call to the service with the request of the function at
  hand: given the key and the model it acts on the world outside and gives a promise of
  the response. An exception in the callback, from \<open>getApiKey\<close> before the call or from
  the processing after it, rejects the callback's promise.
\<close>

definition DEFAULT_MAX_RETRIES :: nat where
  "DEFAULT_MAX_RETRIES = 1"

definition DEFAULT_TIMEOUT_MS :: nat where
  "DEFAULT_TIMEOUT_MS = 60000"

definition api_attempt ::
    "localStorage \<Rightarrow> (string \<Rightarrow> string \<Rightarrow> 's \<Rightarrow> response promise \<times> 's)
       \<Rightarrow> (response \<Rightarrow> js_error + 'a) \<Rightarrow> string \<Rightarrow> 's \<Rightarrow> 'a promise \<times> 's" where
  "api_attempt ls generateContent process model w =
     (case getApiKey ls of
        Inl err \<Rightarrow> (Rejects err, w)
      | Inr apiKey \<Rightarrow>
          (case generateContent apiKey model w of
             (Resolves r, w') \<Rightarrow>
               (case process r of
                  Inl err \<Rightarrow> (Rejects err, w')
                | Inr val \<Rightarrow> (Resolves val, w'))
           | (Rejects err, w') \<Rightarrow> (Rejects err, w')
           | (Pending, w') \<Rightarrow> (Pending, w')))"

text \<open>\<open>response.text || fallback\<close>.\<close>

definition text_or :: "response \<Rightarrow> string \<Rightarrow> string" where
  "text_or r fallback =
     (case response_text r of None \<Rightarrow> fallback | Some t \<Rightarrow> if t = [] then fallback else t)"

text \<open>
  \<open>trim\<close> removes the white space and the line terminators of ECMAScript from both ends
  of a string: U+0009 to U+000D, U+0020, U+00A0, U+1680, U+2000 to U+200A, U+2028,
  U+2029, U+202F, U+205F, U+3000 and U+FEFF, here in their UTF-8 encodings.
\<close>

definition WHITE_SPACE :: "string list" where
  "WHITE_SPACE =
     [[CHR 0x09], [CHR 0x0A], [CHR 0x0B], [CHR 0x0C], [CHR 0x0D], [CHR 0x20],
      [CHR 0xC2, CHR 0xA0], [CHR 0xE1, CHR 0x9A, CHR 0x80],
      [CHR 0xE2, CHR 0x80, CHR 0x80], [CHR 0xE2, CHR 0x80, CHR 0x81],
      [CHR 0xE2, CHR 0x80, CHR 0x82], [CHR 0xE2, CHR 0x80, CHR 0x83],
      [CHR 0xE2, CHR 0x80, CHR 0x84], [CHR 0xE2, CHR 0x80, CHR 0x85],
      [CHR 0xE2, CHR 0x80, CHR 0x86], [CHR 0xE2, CHR 0x80, CHR 0x87],
      [CHR 0xE2, CHR 0x80, CHR 0x88], [CHR 0xE2, CHR 0x80, CHR 0x89],
      [CHR 0xE2, CHR 0x80, CHR 0x8A], [CHR 0xE2, CHR 0x80, CHR 0xA8],
      [CHR 0xE2, CHR 0x80, CHR 0xA9], [CHR 0xE2, CHR 0x80, CHR 0xAF],
      [CHR 0xE2, CHR 0x81, CHR 0x9F], [CHR 0xE3, CHR 0x80, CHR 0x80],
      [CHR 0xEF, CHR 0xBB, CHR 0xBF]]"

text \<open>The number of bytes of the white-space character a string starts with, 0 when it
  starts with none.\<close>

definition white_space_prefix :: "string list \<Rightarrow> string \<Rightarrow> nat" where
  "white_space_prefix codes s =
     (case find (\<lambda>ws. ws \<noteq> [] \<and> take (length ws) s = ws) codes of
        None \<Rightarrow> 0
      | Some ws \<Rightarrow> length ws)"

function strip :: "string list \<Rightarrow> string \<Rightarrow> string" where
  "strip codes s =
     (if white_space_prefix codes s = 0 then s
      else strip codes (drop (white_space_prefix codes s) s))"
  by pat_completeness auto
termination
proof (relation "measure (\<lambda>(codes, s). length s)")
  show "wf (measure (\<lambda>(codes, s). length s))" by simp
next
  fix codes :: "string list" and s :: string
  assume n: "white_space_prefix codes s \<noteq> 0"
  then obtain ws where "ws \<noteq> []" "take (length ws) s = ws"
    unfolding white_space_prefix_def by (auto split: option.splits simp: find_Some_iff)
  then have "s \<noteq> []" by auto
  with n show "((codes, drop (white_space_prefix codes s) s), (codes, s)) \<in> measure (\<lambda>(codes, s). length s)"
    by simp
qed

definition trimStart :: "string \<Rightarrow> string" where
  "trimStart s = strip WHITE_SPACE s"

definition trimEnd :: "string \<Rightarrow> string" where
  "trimEnd s = rev (strip (map rev WHITE_SPACE) (rev s))"

definition trim :: "string \<Rightarrow> string" where
  "trim s = trimEnd (trimStart s)"

text \<open>
  \<^verbatim>\<open>
  return response.text?.trim()
    || `A professional cinematic 3D Pixar style illustration of ${theme}, high detail, vibrant colors.`;
  \<close>
\<close>

definition generateImagePrompt ::
    "localStorage \<Rightarrow> (string \<Rightarrow> string \<Rightarrow> 's \<Rightarrow> response promise \<times> 's) \<Rightarrow> string \<Rightarrow> 's
       \<Rightarrow> (js_error + string) \<times> 's \<times> event list" where
  "generateImagePrompt ls generateContent theme w =
     callWithRetry
       (api_attempt ls generateContent
          (\<lambda>r. Inr (case or_else (map_option trim (response_text r)) None of
                      Some t \<Rightarrow> t
                    | None \<Rightarrow> ''A professional cinematic 3D Pixar style illustration of ''
                              @ theme @ '', high detail, vibrant colors.'')))
       DEFAULT_MAX_RETRIES DEFAULT_TIMEOUT_MS ls w"

text \<open>
  The two script generators end with
  \<^verbatim>\<open>
  return JSON.parse(response.text
    || '{"intro":"", "points":[], "conclusion":"", "lessonVocab":[]}');
  \<close>
  \<open>JSON.parse\<close> belongs to the platform and is an argument here: it gives the parsed
  value, or the \<open>SyntaxError\<close> it throws.
\<close>

definition DEFAULT_SCRIPT_TEXT :: string where
  "DEFAULT_SCRIPT_TEXT =
     ''{'' @ [CHR 0x22] @ ''intro'' @ [CHR 0x22] @ '':'' @ [CHR 0x22, CHR 0x22] @ '', ''
     @ [CHR 0x22] @ ''points'' @ [CHR 0x22] @ '':[], ''
     @ [CHR 0x22] @ ''conclusion'' @ [CHR 0x22] @ '':'' @ [CHR 0x22, CHR 0x22] @ '', ''
     @ [CHR 0x22] @ ''lessonVocab'' @ [CHR 0x22] @ '':[]}''"

definition script_callback ::
    "localStorage \<Rightarrow> (string \<Rightarrow> string \<Rightarrow> 's \<Rightarrow> response promise \<times> 's)
       \<Rightarrow> (string \<Rightarrow> js_error + 'j) \<Rightarrow> string \<Rightarrow> 's \<Rightarrow> 'j promise \<times> 's" where
  "script_callback ls generateContent JSON_parse =
     api_attempt ls generateContent (\<lambda>r. JSON_parse (text_or r DEFAULT_SCRIPT_TEXT))"

definition generatePresentationScript ::
    "localStorage \<Rightarrow> (string \<Rightarrow> string \<Rightarrow> 's \<Rightarrow> response promise \<times> 's)
       \<Rightarrow> (string \<Rightarrow> js_error + 'j) \<Rightarrow> 's \<Rightarrow> (js_error + 'j) \<times> 's \<times> event list" where
  "generatePresentationScript ls generateContent JSON_parse w =
     callWithRetry (script_callback ls generateContent JSON_parse)
       DEFAULT_MAX_RETRIES DEFAULT_TIMEOUT_MS ls w"

definition generateScriptFromImage ::
    "localStorage \<Rightarrow> (string \<Rightarrow> string \<Rightarrow> 's \<Rightarrow> response promise \<times> 's)
       \<Rightarrow> (string \<Rightarrow> js_error + 'j) \<Rightarrow> 's \<Rightarrow> (js_error + 'j) \<times> 's \<times> event list" where
  "generateScriptFromImage ls generateContent JSON_parse w =
     callWithRetry (script_callback ls generateContent JSON_parse)
       DEFAULT_MAX_RETRIES DEFAULT_TIMEOUT_MS ls w"

text \<open>The value of the default text, \<open>{intro: "", points: [], conclusion: "", lessonVocab: []}\<close>,
  in the shape of the script object.\<close>

record VocabularyItem =
  word :: string
  ipa :: string
  translation :: string
  icon :: string

record script =
  intro :: string
  points :: "string list"
  conclusion :: string
  lessonVocab :: "VocabularyItem list"

definition default_script :: script where
  "default_script = \<lparr>intro = [], points = [], conclusion = [], lessonVocab = []\<rparr>"

text \<open>
  The voice: the callback ignores the model it is given and asks the one model that
  synthesises speech; then
  \<^verbatim>\<open>
  return await decodeAudioData(decode(base64Audio!), audioContext, 24000, 1);
  \<close>
  \<open>atob\<close> is an argument, as for \<open>decode\<close> (an undefined \<open>base64Audio\<close> reaches it as
  the text \<open>undefined\<close>), and so is the error object the platform throws for each failure
  of the decoder.
\<close>

definition generateTeacherVoice ::
    "localStorage \<Rightarrow> (string \<Rightarrow> string \<Rightarrow> 's \<Rightarrow> response promise \<times> 's)
       \<Rightarrow> (string \<Rightarrow> js_error + 8 word list) \<Rightarrow> AudioContext \<Rightarrow> (audio_error \<Rightarrow> js_error) \<Rightarrow> 's
       \<Rightarrow> (js_error + AudioBuffer) \<times> 's \<times> event list" where
  "generateTeacherVoice ls generateContent atob audioContext thrown w =
     callWithRetry
       (\<lambda>unused_model.
          api_attempt ls generateContent
            (\<lambda>r. case decode atob (case response_audio r of None \<Rightarrow> ''undefined'' | Some b \<Rightarrow> b) of
                    Inl err \<Rightarrow> Inl err
                  | Inr bytes \<Rightarrow>
                      (case decodeAudioData bytes audioContext 24000 1 of
                         Inl e \<Rightarrow> Inl (thrown e)
                       | Inr audioBuffer \<Rightarrow> Inr audioBuffer))
            ''gemini-2.5-flash-preview-tts'')
       DEFAULT_MAX_RETRIES DEFAULT_TIMEOUT_MS ls w"

text \<open>
  The evaluator: \<open>const raw = JSON.parse(response.text || '{}');\<close> and then the
  normalisation above. The parser is an argument again, giving the parsed object in the
  shape the response schema declares.
\<close>

definition evaluation_callback ::
    "localStorage \<Rightarrow> (string \<Rightarrow> string \<Rightarrow> 's \<Rightarrow> response promise \<times> 's)
       \<Rightarrow> (string \<Rightarrow> js_error + 'p raw_evaluation) \<Rightarrow> CEFRLevel \<Rightarrow> string
       \<Rightarrow> string \<Rightarrow> 's \<Rightarrow> 'p EvaluationResult promise \<times> 's" where
  "evaluation_callback ls generateContent JSON_parse level today =
     api_attempt ls generateContent
       (\<lambda>r. case JSON_parse (text_or r ''{}'') of
               Inl err \<Rightarrow> Inl err
             | Inr raw \<Rightarrow> Inr (evaluation_result raw level today))"

definition evaluatePresentation ::
    "localStorage \<Rightarrow> (string \<Rightarrow> string \<Rightarrow> 's \<Rightarrow> response promise \<times> 's)
       \<Rightarrow> (string \<Rightarrow> js_error + 'p raw_evaluation) \<Rightarrow> CEFRLevel \<Rightarrow> string \<Rightarrow> 's
       \<Rightarrow> (js_error + 'p EvaluationResult) \<times> 's \<times> event list" where
  "evaluatePresentation ls generateContent JSON_parse level today w =
     callWithRetry (evaluation_callback ls generateContent JSON_parse level today)
       DEFAULT_MAX_RETRIES DEFAULT_TIMEOUT_MS ls w"

section \<open>Auxiliary notions for the proofs\<close>

text \<open>The number of tenths \<open>Math.round(v * 10)\<close> counts, and the clamp on that count.\<close>

definition tenths :: "rat \<Rightarrow> int" where
  "tenths v = \<lfloor>v * 10 + 1 / 2\<rfloor>"

definition clamp_tenths :: "int \<Rightarrow> int" where
  "clamp_tenths k = min 100 (max 0 k)"

text \<open>The two rescaling steps of the current normaliser, and the one of the first revision.\<close>

definition rescale :: "rat \<Rightarrow> rat" where
  "rescale x = (if 0 < x \<and> x < 1 then x * 10 else if x > 10 then x / 10 else x)"


section \<open>Auxiliary notions for the orchestrator's properties\<close>

text \<open>What the orchestrator's \<open>try\<close> block sees of one invocation of the callback.\<close>

definition caught :: "(string \<Rightarrow> 's \<Rightarrow> 'a promise \<times> 's) \<Rightarrow> nat \<Rightarrow> string \<Rightarrow> 's \<Rightarrow> js_error + 'a" where
  "caught fn timeoutMs model w = withTimeout (fst (fn model w)) timeoutMs (''Model '' @ model)"

text \<open>
  From the world \<open>w\<close> on, the next \<open>n\<close> invocations of the callback for the model \<open>M\<close> go
  like this: each but the last rejects with an error that the orchestrator classifies as
  a quota error and not as a timeout, and the last resolves with \<open>v\<close> and leaves the
  world \<open>w'\<close>.
\<close>

fun quota_failures_then_success ::
    "(string \<Rightarrow> 's \<Rightarrow> 'a promise \<times> 's) \<Rightarrow> string \<Rightarrow> nat \<Rightarrow> 's \<Rightarrow> 'a \<Rightarrow> 's \<Rightarrow> bool" where
  "quota_failures_then_success fn M 0 w v w' = False"
| "quota_failures_then_success fn M (Suc 0) w v w' = (fn M w = (Resolves v, w'))"
| "quota_failures_then_success fn M (Suc (Suc n)) w v w' =
     (case fn M w of
        (Rejects err, w1) \<Rightarrow>
          isQuotaError err \<and> \<not> isTimeoutError err
          \<and> quota_failures_then_success fn M (Suc n) w1 v w'
      | _ \<Rightarrow> False)"

text \<open>The events of \<open>n\<close> invocations for one model with the waits between them, the first
  wait being \<open>d\<close> and each later wait 2.5 times the one before.\<close>

fun retry_events :: "string \<Rightarrow> nat \<Rightarrow> rat \<Rightarrow> event list" where
  "retry_events M 0 d = []"
| "retry_events M (Suc 0) d = [Invoke M]"
| "retry_events M (Suc (Suc n)) d = Invoke M # Wait d # retry_events M (Suc n) (d * (5 / 2))"

text \<open>
  A callback for the counterexample to the retry claim. The world is the number of
  invocations made so far. For the default model the first invocation rejects with a
  status of 429 and a message that holds the timeout marker, and every later one resolves
  with 7; for every other model the callback rejects with an error of no particular kind.
\<close>

definition marked_quota_error :: js_error where
  "marked_quota_error =
     \<lparr>message = Some (''upstream: '' @ TIMEOUT_MARKER), status = Some 429, stringified = Some ''{}''\<rparr>"

definition marked_quota_callback :: "string \<Rightarrow> nat \<Rightarrow> nat promise \<times> nat" where
  "marked_quota_callback model n =
     (if model = ''gemini-3-flash-preview''
      then (if n = 0 then Rejects marked_quota_error else Resolves 7, n + 1)
      else (Rejects (new_Error ''unavailable''), n + 1))"

text \<open>A callback that rejects with a plain quota error twice and resolves with 7 after that.\<close>

definition quota_twice_callback :: "string \<Rightarrow> nat \<Rightarrow> nat promise \<times> nat" where
  "quota_twice_callback model n =
     (if n < 2
      then (Rejects \<lparr>message = Some ''Quota exceeded'', status = Some 429, stringified = Some ''{}''\<rparr>, n + 1)
      else (Resolves 7, n + 1))"

text \<open>A service that answers every request with the text \<open>oops\<close>, a parser that knows the
  two default texts and rejects everything else, and a service that answers with no text.\<close>

definition oops_service :: "string \<Rightarrow> string \<Rightarrow> nat \<Rightarrow> response promise \<times> nat" where
  "oops_service apiKey model n = (Resolves \<lparr>response_text = Some ''oops'', response_audio = None\<rparr>, n + 1)"

definition empty_service :: "string \<Rightarrow> string \<Rightarrow> nat \<Rightarrow> response promise \<times> nat" where
  "empty_service apiKey model n = (Resolves \<lparr>response_text = None, response_audio = None\<rparr>, n + 1)"

definition syntax_error :: js_error where
  "syntax_error = \<lparr>message = Some ''Unexpected token o in JSON at position 0'', status = None,
                   stringified = Some ''{}''\<rparr>"

definition literal_parse :: "'j \<Rightarrow> string \<Rightarrow> js_error + 'j" where
  "literal_parse d t = (if t = DEFAULT_SCRIPT_TEXT \<or> t = ''{}'' then Inr d else Inl syntax_error)"

definition empty_raw :: "unit raw_evaluation" where
  "empty_raw = \<lparr>raw_pronunciation = Absent, raw_fluency = Absent, raw_intonation = Absent,
                raw_vocabulary = Absent, raw_grammar = Absent, raw_taskFulfillment = Absent,
                raw_other = ()\<rparr>"

text \<open>A callback that has not settled when the guard's timer fires, whatever the model;
  the world counts the invocations.\<close>

definition always_pending :: "string \<Rightarrow> nat \<Rightarrow> nat promise \<times> nat" where
  "always_pending model n = (Pending, n + 1)"
section \<open>Properties of the normaliser\<close>

lemma clamp_round:
  "min 10 (max 0 (Math_round (v * 10) / 10)) = of_int (clamp_tenths (tenths v)) / 10"
  unfolding Math_round_def tenths_def clamp_tenths_def
  by (simp add: min_def max_def)

lemma tenths_of_int: "tenths (of_int k / 10) = k"
  unfolding tenths_def by (rule floor_unique) simp_all

lemma tenths_of_int_whole: "tenths (of_int k) = 10 * k"
  using tenths_of_int [of "10 * k"] by simp

lemma tenths_le_iff: "tenths v \<le> k \<longleftrightarrow> v < (of_int k + 1 / 2) / 10"
  unfolding tenths_def by (simp add: floor_le_iff field_simps)

lemma tenths_ge_iff: "k \<le> tenths v \<longleftrightarrow> (of_int k - 1 / 2) / 10 \<le> v"
  unfolding tenths_def by (simp add: le_floor_iff field_simps)

lemma clamp_tenths_range: "0 \<le> clamp_tenths k" "clamp_tenths k \<le> 100"
  unfolding clamp_tenths_def by simp_all

lemma normalize_Num:
  "normalize_score (Num x) = of_int (clamp_tenths (tenths (rescale x))) / 10"
  unfolding normalize_score_def Let_def clamp_round rescale_def by simp



lemma normalize_of_tenths:
  assumes "0 \<le> k" "k \<le> 100"
  shows "normalize_score (Num (of_int k / 10)) = (if 1 \<le> k \<and> k \<le> 9 then of_int k else of_int k / 10)"
proof (cases "1 \<le> k \<and> k \<le> 9")
  case True
  then have "rescale (of_int k / 10) = of_int k"
    unfolding rescale_def by simp
  with True show ?thesis
    by (simp add: normalize_Num tenths_of_int_whole clamp_tenths_def)
next
  case False
  with assms have "k = 0 \<or> 10 \<le> k" by linarith
  then have r: "rescale (of_int k / 10) = of_int k / 10"
    using assms unfolding rescale_def by auto
  have "clamp_tenths k = k"
    using assms unfolding clamp_tenths_def by simp
  with False show ?thesis
    unfolding normalize_Num r tenths_of_int by simp
qed

lemma small_result_iff:
  "1 \<le> clamp_tenths (tenths (rescale x)) \<and> clamp_tenths (tenths (rescale x)) \<le> 9
     \<longleftrightarrow> 1 / 200 \<le> x \<and> x < 19 / 200"
proof -
  have c: "\<And>k. (1 \<le> clamp_tenths k \<and> clamp_tenths k \<le> 9) = (1 \<le> k \<and> k \<le> 9)"
    unfolding clamp_tenths_def by auto
  show ?thesis
    unfolding c tenths_le_iff tenths_ge_iff rescale_def
    by (auto simp: field_simps)
qed

text \<open>
  C8 (as amended). Normalising twice gives the same value as normalising once exactly when
  the input lies outside the interval from 0.005 (included) to 0.095 (excluded). Inside
  that interval the first result is one of 0.1, ..., 0.9, which the second application
  takes for a fraction and multiplies by 10. In particular the normaliser is idempotent
  at 0 and at every input from 0.095 on.
\<close>

theorem normalize_idempotent_iff:
  "normalize_score (Num (normalize_score (Num x))) = normalize_score (Num x)
     \<longleftrightarrow> \<not> (1 / 200 \<le> x \<and> x < 19 / 200)"
proof -
  let ?k = "clamp_tenths (tenths (rescale x))"
  have "normalize_score (Num (normalize_score (Num x))) = (if 1 \<le> ?k \<and> ?k \<le> 9 then of_int ?k else of_int ?k / 10)"
    unfolding normalize_Num [of x] by (rule normalize_of_tenths) (rule clamp_tenths_range)+
  moreover have "1 \<le> ?k \<Longrightarrow> (of_int ?k :: rat) \<noteq> of_int ?k / 10" by simp
  ultimately show ?thesis
    unfolding small_result_iff [symmetric] normalize_Num [of x] by auto
qed

text \<open>
  The claim as stated fails at the input 0.0625: it normalises to 0.6, and 0.6 to 6.
\<close>

theorem normalize_idempotent_counterexample:
  "normalize_score (Num (1 / 16)) = 3 / 5 \<and> normalize_score (Num (3 / 5)) = 6 \<and>
   normalize_score (Num (normalize_score (Num (1 / 16)))) \<noteq> normalize_score (Num (1 / 16))"
  by code_simp

theorem normalize_idempotent_witness:
  "normalize_score (Num (normalize_score (Num (1 / 2)))) = normalize_score (Num (1 / 2))"
  using normalize_idempotent_iff [of "1 / 2"] by simp








text \<open>
  The first revision passes the mean through its normaliser instead: six dimension
  scores of 0.5 (from raw scores of 0.05) have the mean 0.5 and the aggregate 5.
\<close>

theorem rev1_aggregate_rescales:
  "score (evaluation_result_rev1
            \<lparr>raw_pronunciation = Num (1 / 20), raw_fluency = Num (1 / 20), raw_intonation = Num (1 / 20),
             raw_vocabulary = Num (1 / 20), raw_grammar = Num (1 / 20), raw_taskFulfillment = Num (1 / 20),
             raw_other = ()\<rparr> A1 []) = 5"
  by code_simp

section \<open>The candidate list and the audio decoder\<close>

lemma Int16Array_Some:
  "Int16Array data = Some ws \<Longrightarrow>
     even (length data) \<and> length ws = length data div 2 \<and>
     (\<forall>j < length ws. ws ! j = int16_le (data ! (2 * j)) (data ! (2 * j + 1)))"
proof (induction data arbitrary: ws rule: Int16Array.induct)
  case 1
  then show ?case by simp
next
  case (2 b)
  then show ?case by simp
next
  case (3 lo hi bs)
  from "3.prems" obtain ws' where w: "Int16Array bs = Some ws'" "ws = int16_le lo hi # ws'"
    by auto
  from "3.IH" [OF w(1)] have ih: "even (length bs)" "length ws' = length bs div 2"
    "\<forall>j < length ws'. ws' ! j = int16_le (bs ! (2 * j)) (bs ! (2 * j + 1))" by simp_all
  have "ws ! j = int16_le ((lo # hi # bs) ! (2 * j)) ((lo # hi # bs) ! (2 * j + 1))" if "j < length ws" for j
  proof (cases j)
    case 0
    then show ?thesis using w(2) by simp
  next
    case (Suc k)
    with that w(2) have "k < length ws'" by simp
    with ih(3) have "ws' ! k = int16_le (bs ! (2 * k)) (bs ! (2 * k + 1))" by simp
    with Suc w(2) show ?thesis by simp
  qed
  with ih w(2) show ?case by simp
qed

lemma Int16Array_even: "even (length data) \<Longrightarrow> \<exists>ws. Int16Array data = Some ws"
  by (induction data rule: Int16Array.induct) auto

text \<open>The little-endian 16-bit value of two bytes, read as a two's-complement number.\<close>

lemma sint_int16_le:
  "sint (int16_le lo hi)
     = (if unat lo + 256 * unat hi < 32768 then int (unat lo + 256 * unat hi)
        else int (unat lo + 256 * unat hi) - 65536)"
proof -
  define n where "n = unat lo + 256 * unat hi"
  have "unat lo < 256" "unat hi < 256"
    using unsigned_less [of lo] unsigned_less [of hi] by simp_all
  then have r: "n < 65536" unfolding n_def by simp
  have "unat (int16_le lo hi) = n mod 65536"
    unfolding int16_le_def n_def [symmetric] unat_of_nat by simp
  with r have "uint (int16_le lo hi) = int n"
    unfolding uint_nat by simp
  then have "sint (int16_le lo hi) = (int n + 32768) mod 65536 - 32768"
    unfolding sint_uint signed_take_bit_eq_take_bit_shift take_bit_eq_mod by simp
  also have "\<dots> = (if n < 32768 then int n else int n - 65536)"
  proof (cases "n < 32768")
    case True
    then have "(int n + 32768) mod 65536 = int n + 32768"
      by (intro mod_pos_pos_trivial) simp_all
    with True show ?thesis by simp
  next
    case False
    have "int n + 32768 = (int n - 32768) + 65536" by simp
    then have "(int n + 32768) mod 65536 = ((int n - 32768) + 65536) mod 65536" by (rule arg_cong)
    also have "\<dots> = (int n - 32768) mod 65536" by (rule mod_add_self2)
    also have "\<dots> = int n - 32768"
      using False r by (intro mod_pos_pos_trivial) simp_all
    finally show ?thesis using False by simp
  qed
  finally show ?thesis unfolding n_def .
qed

lemma sample_range:
  fixes w :: "16 word"
  shows "- 1 \<le> (of_int (sint w) :: rat) / 32768" "(of_int (sint w) :: rat) / 32768 \<le> 1"
proof -
  have "- 32768 \<le> sint w" "sint w < 32768"
    using sint_ge [of w] sint_lt [of w] by simp_all
  then have "(- 32768 :: rat) \<le> of_int (sint w)" "(of_int (sint w) :: rat) \<le> 32768"
    by linarith+
  then show "- 1 \<le> (of_int (sint w) :: rat) / 32768" "(of_int (sint w) :: rat) / 32768 \<le> 1"
    by simp_all
qed

lemma elements_whole:
  "byteOffset data = 0 \<Longrightarrow> byteLength data = length (buffer data) \<Longrightarrow> elements data = buffer data"
  unfolding elements_def by simp

text \<open>
  The bytes 00 40 00 C0 are the samples 16384 and -16384; on one channel they decode to
  0.5 and -0.5, at every sample rate the context supports, whatever the array's window.
\<close>

lemma decode_example:
  assumes "1 \<le> maxChannels ctx" "minSampleRate ctx \<le> rate" "rate \<le> maxSampleRate ctx"
  shows "decodeAudioData \<lparr>buffer = [0x00, 0x40, 0x00, 0xC0], byteOffset = off, byteLength = len\<rparr> ctx rate 1
           = Inr \<lparr>numberOfChannels = 1, frames = 2, sampleRate = rate, channelData = [[1 / 2, - 1 / 2]]\<rparr>"
proof -
  have a: "int16_le 0x00 0x40 = 0x4000" "int16_le 0x00 0xC0 = 0xC000"
    by (simp_all add: int16_le_def)
  have b: "sint (0x4000 :: 16 word) = 16384" "sint (0xC000 :: 16 word) = - 16384"
    by simp_all
  have c: "[0..<2] = [0, 1]" "[0..<1] = [0]" by (simp_all add: upt_rec)
  from assms show ?thesis
    unfolding decodeAudioData_def by (simp add: createBuffer_def a b c)
qed

text \<open>
  The bytes 34 12 FF 7F 01 80 FF FF are the samples 4660, 32767, -32767 and -1; on two
  channels the first and third go to channel 0 and the second and fourth to channel 1.
\<close>

lemma decode_example_stereo:
  assumes "2 \<le> maxChannels ctx" "minSampleRate ctx \<le> rate" "rate \<le> maxSampleRate ctx"
  shows "decodeAudioData \<lparr>buffer = [0x34, 0x12, 0xFF, 0x7F, 0x01, 0x80, 0xFF, 0xFF],
                           byteOffset = off, byteLength = len\<rparr> ctx rate 2
           = Inr \<lparr>numberOfChannels = 2, frames = 2, sampleRate = rate,
                  channelData = [[4660 / 32768, - 32767 / 32768], [32767 / 32768, - 1 / 32768]]\<rparr>"
proof -
  have a: "int16_le 0x34 0x12 = 0x1234" "int16_le 0xFF 0x7F = 0x7FFF"
    "int16_le 0x01 0x80 = 0x8001" "int16_le 0xFF 0xFF = 0xFFFF"
    by (simp_all add: int16_le_def)
  have b: "sint (0x1234 :: 16 word) = 4660" "sint (0x7FFF :: 16 word) = 32767"
    "sint (0x8001 :: 16 word) = - 32767" "sint (0xFFFF :: 16 word) = - 1"
    by simp_all
  have c: "[0..<2] = [0, 1]" by (simp add: upt_rec)
  from assms show ?thesis
    unfolding decodeAudioData_def by (simp add: createBuffer_def a b c)
qed

text \<open>
  C9 (as amended). Let the byte array span its whole buffer (its window starts at offset
  0 and has the buffer's length), as every array that \<open>decode\<close> returns does. Then
  \<open>decodeAudioData\<close> is a function of the array's bytes, the context's limits, the sample
  rate and the channel count. When it returns a buffer, the buffer has the requested
  channel count and sample rate and one frame for every complete group of samples, and
  the sample at frame \<open>i\<close> of channel \<open>c\<close> is \<open>s / 32768\<close>, where \<open>s\<close> is the 16-bit
  two's-complement number whose low byte is the array's byte \<open>2 * (i * numChannels + c)\<close>
  and whose high byte is the next one; it lies between -1 and 1. It returns a buffer
  exactly when the byte length is even, the channel count is positive, supported and no
  larger than the number of samples, and the sample rate is supported. The four bytes
  00 40 00 C0 decode on one channel to 0.5 and -0.5, and the eight bytes
  34 12 FF 7F 01 80 FF FF on two channels to 4660/32768, -32767/32768 and
  32767/32768, -1/32768.
\<close>

theorem decodeAudioData_samples:
  assumes "byteOffset data = 0" and "byteLength data = length (buffer data)"
  shows
  "(decodeAudioData data ctx rate numChannels = Inr buf \<longrightarrow>
      numberOfChannels buf = numChannels \<and> sampleRate buf = rate \<and>
      frames buf = length (elements data) div 2 div numChannels \<and>
      length (channelData buf) = numChannels \<and>
      (\<forall>channel < numChannels.
         length (channelData buf ! channel) = frames buf \<and>
         (\<forall>i < frames buf.
            channelData buf ! channel ! i
              = of_int (if unat (elements data ! (2 * (i * numChannels + channel)))
                            + 256 * unat (elements data ! (2 * (i * numChannels + channel) + 1)) < 32768
                        then int (unat (elements data ! (2 * (i * numChannels + channel)))
                                  + 256 * unat (elements data ! (2 * (i * numChannels + channel) + 1)))
                        else int (unat (elements data ! (2 * (i * numChannels + channel)))
                                  + 256 * unat (elements data ! (2 * (i * numChannels + channel) + 1)))
                             - 65536) / 32768 \<and>
            - 1 \<le> channelData buf ! channel ! i \<and> channelData buf ! channel ! i \<le> 1))) \<and>
   ((\<exists>b. decodeAudioData data ctx rate numChannels = Inr b) \<longleftrightarrow>
      even (length (elements data)) \<and> 0 < numChannels \<and> numChannels \<le> maxChannels ctx \<and>
      numChannels \<le> length (elements data) div 2 \<and>
      minSampleRate ctx \<le> rate \<and> rate \<le> maxSampleRate ctx) \<and>
   (\<forall>d. decode atob base64 = Inr d \<longrightarrow>
      byteOffset d = 0 \<and> byteLength d = length (buffer d) \<and> atob base64 = Inr (elements d)) \<and>
   (1 \<le> maxChannels ctx \<and> minSampleRate ctx \<le> rate \<and> rate \<le> maxSampleRate ctx \<longrightarrow>
      decodeAudioData \<lparr>buffer = [0x00, 0x40, 0x00, 0xC0], byteOffset = 0, byteLength = 4\<rparr> ctx rate 1
        = Inr \<lparr>numberOfChannels = 1, frames = 2, sampleRate = rate,
               channelData = [[1 / 2, - 1 / 2]]\<rparr>) \<and>
   (2 \<le> maxChannels ctx \<and> minSampleRate ctx \<le> rate \<and> rate \<le> maxSampleRate ctx \<longrightarrow>
      decodeAudioData \<lparr>buffer = [0x34, 0x12, 0xFF, 0x7F, 0x01, 0x80, 0xFF, 0xFF],
                        byteOffset = 0, byteLength = 8\<rparr> ctx rate 2
        = Inr \<lparr>numberOfChannels = 2, frames = 2, sampleRate = rate,
               channelData = [[4660 / 32768, - 32767 / 32768], [32767 / 32768, - 1 / 32768]]\<rparr>)"
proof (intro conjI impI allI)
  note el = elements_whole [OF assms]
  assume d: "decodeAudioData data ctx rate numChannels = Inr buf"
  then obtain ws where ws: "Int16Array (buffer data) = Some ws"
    unfolding decodeAudioData_def by (auto split: option.splits)
  note i = Int16Array_Some [OF ws]
  define n where "n = length ws div numChannels"
  from d ws have nz: "numChannels \<noteq> 0" and n0: "n \<noteq> 0"
    unfolding decodeAudioData_def createBuffer_def n_def Let_def by (auto split: if_splits)
  from d ws nz have buf: "buf = \<lparr>numberOfChannels = numChannels, frames = n, sampleRate = rate,
      channelData = map (\<lambda>channel. map (\<lambda>i. of_int (sint (ws ! (i * numChannels + channel))) / 32768) [0..<n]) [0..<numChannels]\<rparr>"
    unfolding decodeAudioData_def createBuffer_def n_def Let_def by (auto split: if_splits)
  show "numberOfChannels buf = numChannels" "sampleRate buf = rate" "length (channelData buf) = numChannels"
    unfolding buf by simp_all
  show f: "frames buf = length (elements data) div 2 div numChannels"
    unfolding buf n_def el using i by simp
  fix channel assume c: "channel < numChannels"
  then show "length (channelData buf ! channel) = frames buf" unfolding buf by simp
  fix k assume k: "k < frames buf"
  then have kn: "k < n" unfolding buf by simp
  have "k * numChannels + channel < (k + 1) * numChannels" using c by simp
  also have "\<dots> \<le> n * numChannels" using kn by (intro mult_le_mono1) simp
  also have "\<dots> \<le> length ws" unfolding n_def by simp
  finally have j: "k * numChannels + channel < length ws" .
  have v: "channelData buf ! channel ! k = of_int (sint (ws ! (k * numChannels + channel))) / 32768"
    unfolding buf using c kn by simp
  from i j have "ws ! (k * numChannels + channel)
      = int16_le (buffer data ! (2 * (k * numChannels + channel)))
                 (buffer data ! (2 * (k * numChannels + channel) + 1))"
    by simp
  then show "channelData buf ! channel ! k
              = of_int (if unat (elements data ! (2 * (k * numChannels + channel)))
                            + 256 * unat (elements data ! (2 * (k * numChannels + channel) + 1)) < 32768
                        then int (unat (elements data ! (2 * (k * numChannels + channel)))
                                  + 256 * unat (elements data ! (2 * (k * numChannels + channel) + 1)))
                        else int (unat (elements data ! (2 * (k * numChannels + channel)))
                                  + 256 * unat (elements data ! (2 * (k * numChannels + channel) + 1)))
                             - 65536) / 32768"
    unfolding v el by (simp only: sint_int16_le)
  show "- 1 \<le> channelData buf ! channel ! k" "channelData buf ! channel ! k \<le> 1"
    unfolding v by (rule sample_range)+
next
  note el = elements_whole [OF assms]
  show "(\<exists>b. decodeAudioData data ctx rate numChannels = Inr b) \<longleftrightarrow>
      even (length (elements data)) \<and> 0 < numChannels \<and> numChannels \<le> maxChannels ctx \<and>
      numChannels \<le> length (elements data) div 2 \<and>
      minSampleRate ctx \<le> rate \<and> rate \<le> maxSampleRate ctx"
  proof (cases "Int16Array (buffer data)")
    case None
    then have "odd (length (buffer data))" using Int16Array_even by fastforce
    with None show ?thesis unfolding decodeAudioData_def el by simp
  next
    case (Some ws)
    note i = Int16Array_Some [OF Some]
    have "length ws div numChannels = 0 \<longleftrightarrow> numChannels = 0 \<or> length ws < numChannels"
      by (auto simp: div_eq_0_iff)
    with Some i show ?thesis
      unfolding decodeAudioData_def createBuffer_def Let_def el
      by (auto split: if_splits)
  qed
next
  fix d assume "decode atob base64 = Inr d"
  then obtain bs where b: "atob base64 = Inr bs"
      "d = \<lparr>buffer = bs, byteOffset = 0, byteLength = length bs\<rparr>"
    unfolding decode_def by (auto split: sum.splits)
  show "byteOffset d = 0" "byteLength d = length (buffer d)" "atob base64 = Inr (elements d)"
    unfolding b elements_def by simp_all
next
  assume "1 \<le> maxChannels ctx \<and> minSampleRate ctx \<le> rate \<and> rate \<le> maxSampleRate ctx"
  then show "decodeAudioData \<lparr>buffer = [0x00, 0x40, 0x00, 0xC0], byteOffset = 0, byteLength = 4\<rparr> ctx rate 1
        = Inr \<lparr>numberOfChannels = 1, frames = 2, sampleRate = rate,
               channelData = [[1 / 2, - 1 / 2]]\<rparr>"
    by (intro decode_example) simp_all
next
  assume "2 \<le> maxChannels ctx \<and> minSampleRate ctx \<le> rate \<and> rate \<le> maxSampleRate ctx"
  then show "decodeAudioData \<lparr>buffer = [0x34, 0x12, 0xFF, 0x7F, 0x01, 0x80, 0xFF, 0xFF],
                        byteOffset = 0, byteLength = 8\<rparr> ctx rate 2
        = Inr \<lparr>numberOfChannels = 2, frames = 2, sampleRate = rate,
               channelData = [[4660 / 32768, - 32767 / 32768], [32767 / 32768, - 1 / 32768]]\<rparr>"
    by (intro decode_example_stereo) simp_all
qed

theorem decodeAudioData_samples_witness:
  "decodeAudioData \<lparr>buffer = [0x34, 0x12, 0xFF, 0x7F, 0x01, 0x80, 0xFF, 0xFF], byteOffset = 0, byteLength = 8\<rparr>
      \<lparr>maxChannels = 32, minSampleRate = 8000, maxSampleRate = 96000\<rparr> 24000 2
     = Inr \<lparr>numberOfChannels = 2, frames = 2, sampleRate = 24000,
            channelData = [[4660 / 32768, - 32767 / 32768], [32767 / 32768, - 1 / 32768]]\<rparr> \<and>
   frames \<lparr>numberOfChannels = 2, frames = 2, sampleRate = 24000,
           channelData = [[4660 / 32768, - 32767 / 32768], [32767 / 32768, - 1 / 32768 :: rat]]\<rparr>
     = length (elements \<lparr>buffer = [0x34, 0x12, 0xFF, 0x7F, 0x01, 0x80, 0xFF, 0xFF],
                          byteOffset = 0, byteLength = 8\<rparr>) div 2 div 2"
proof -
  let ?d = "\<lparr>buffer = [0x34, 0x12, 0xFF, 0x7F, 0x01, 0x80, 0xFF, 0xFF], byteOffset = 0, byteLength = 8\<rparr>"
  let ?b = "\<lparr>numberOfChannels = 2, frames = 2, sampleRate = 24000,
            channelData = [[4660 / 32768, - 32767 / 32768], [32767 / 32768, - 1 / 32768 :: rat]]\<rparr>"
  have a: "byteOffset ?d = 0" "byteLength ?d = length (buffer ?d)" by simp_all
  note t = decodeAudioData_samples [OF a, of "\<lparr>maxChannels = 32, minSampleRate = 8000, maxSampleRate = 96000\<rparr>"
      24000 2 ?b]
  from t [THEN conjunct2, THEN conjunct2, THEN conjunct2, THEN conjunct2]
  have e: "decodeAudioData ?d \<lparr>maxChannels = 32, minSampleRate = 8000, maxSampleRate = 96000\<rparr> 24000 2 = Inr ?b"
    by simp
  from t [THEN conjunct1, rule_format, OF e]
  have "frames ?b = length (elements ?d) div 2 div 2"
    by (elim conjE)
  with e show ?thesis by (rule conjI)
qed

text \<open>
  The claim as stated fails for an array that is a window on a part of its buffer. The
  array below holds the two bytes 00 C0, the one sample -16384, at offset 2 of a buffer
  of four bytes; \<open>decodeAudioData\<close> decodes the whole buffer and returns two frames, 0.5
  and -0.5, where the array's bytes are one frame, -0.5.
\<close>

theorem decodeAudioData_window_counterexample:
  "elements \<lparr>buffer = [0x00, 0x40, 0x00, 0xC0], byteOffset = 2, byteLength = 2\<rparr> = [0x00, 0xC0] \<and>
   decodeAudioData \<lparr>buffer = [0x00, 0x40, 0x00, 0xC0], byteOffset = 2, byteLength = 2\<rparr>
      \<lparr>maxChannels = 32, minSampleRate = 8000, maxSampleRate = 96000\<rparr> 24000 1
     = Inr \<lparr>numberOfChannels = 1, frames = 2, sampleRate = 24000, channelData = [[1 / 2, - 1 / 2]]\<rparr> \<and>
   decodeAudioData \<lparr>buffer = [0x00, 0xC0], byteOffset = 0, byteLength = 2\<rparr>
      \<lparr>maxChannels = 32, minSampleRate = 8000, maxSampleRate = 96000\<rparr> 24000 1
     = Inr \<lparr>numberOfChannels = 1, frames = 1, sampleRate = 24000, channelData = [[- 1 / 2]]\<rparr>"
proof -
  have a: "int16_le 0x00 0xC0 = 0xC000"
    by (simp add: int16_le_def)
  have b: "sint (0xC000 :: 16 word) = - 16384" by simp
  have "decodeAudioData \<lparr>buffer = [0x00, 0xC0], byteOffset = 0, byteLength = 2\<rparr>
      \<lparr>maxChannels = 32, minSampleRate = 8000, maxSampleRate = 96000\<rparr> 24000 1
     = Inr \<lparr>numberOfChannels = 1, frames = 1, sampleRate = 24000, channelData = [[- 1 / 2]]\<rparr>"
    unfolding decodeAudioData_def by (simp add: createBuffer_def a b)
  then show ?thesis
    using decode_example [of "\<lparr>maxChannels = 32, minSampleRate = 8000, maxSampleRate = 96000\<rparr>" 24000 2 2]
    by (simp add: elements_def)
qed

lemma distinct_FALLBACK_MODELS: "distinct FALLBACK_MODELS"
  by (simp add: FALLBACK_MODELS_def)

lemma distinct_getFallbackModels: "distinct (getFallbackModels ls)"
  unfolding getFallbackModels_def Let_def using distinct_FALLBACK_MODELS by simp

lemma getSelectedModel_stored:
  "P \<noteq> [] \<Longrightarrow> getSelectedModel (ls\<lparr>selected_model := Some P\<rparr>) = P"
  by (simp add: getSelectedModel_def)

lemma filter_absent: "P \<notin> set xs \<Longrightarrow> filter (\<lambda>m. m \<noteq> P) xs = xs"
  by (induction xs) auto

lemma count_list_distinct: "distinct xs \<Longrightarrow> x \<in> set xs \<Longrightarrow> count_list xs x = 1"
  by (induction xs) (auto simp: count_list_0_iff)

text \<open>
  C5. Let \<open>P\<close> be the preferred model the settings give (every non-empty identifier is
  one, by \<open>getSelectedModel_stored\<close>). When \<open>P\<close> is in the pool, the candidate list
  starts with \<open>P\<close>, has no duplicates, holds exactly the pool's members, and holds each
  pool member once. When \<open>P\<close> is not in the pool, the list is \<open>P\<close> followed by the pool
  in the pool's order.
\<close>

theorem getFallbackModels_candidates:
  assumes "getSelectedModel ls = P"
  shows "(P \<in> set FALLBACK_MODELS \<longrightarrow>
            hd (getFallbackModels ls) = P \<and> distinct (getFallbackModels ls) \<and>
            set (getFallbackModels ls) = set FALLBACK_MODELS \<and>
            (\<forall>m \<in> set FALLBACK_MODELS. count_list (getFallbackModels ls) m = 1)) \<and>
         (P \<notin> set FALLBACK_MODELS \<longrightarrow> getFallbackModels ls = P # FALLBACK_MODELS)"
proof (intro conjI impI)
  have g: "getFallbackModels ls = P # filter (\<lambda>m. m \<noteq> P) FALLBACK_MODELS"
    unfolding getFallbackModels_def Let_def assms ..
  show "getFallbackModels ls = P # FALLBACK_MODELS" if "P \<notin> set FALLBACK_MODELS"
    unfolding g using that by (simp add: filter_absent)
  assume p: "P \<in> set FALLBACK_MODELS"
  show "hd (getFallbackModels ls) = P" unfolding g by simp
  show d: "distinct (getFallbackModels ls)" by (rule distinct_getFallbackModels)
  show s: "set (getFallbackModels ls) = set FALLBACK_MODELS" unfolding g using p by auto
  show "\<forall>m \<in> set FALLBACK_MODELS. count_list (getFallbackModels ls) m = 1"
    using d s by (simp add: count_list_distinct)
qed


theorem getFallbackModels_candidates_witness:
  "getFallbackModels \<lparr>gemini_api_key = None, selected_model = Some ''gemini-2.5-flash''\<rparr>
     = [''gemini-2.5-flash'', ''gemini-3-flash-preview'', ''gemini-3-pro-preview''] \<and>
   distinct (getFallbackModels \<lparr>gemini_api_key = None, selected_model = Some ''gemini-2.5-flash''\<rparr>) \<and>
   getFallbackModels \<lparr>gemini_api_key = None, selected_model = Some ''gemini-1.5-pro''\<rparr>
     = [''gemini-1.5-pro'', ''gemini-3-flash-preview'', ''gemini-3-pro-preview'', ''gemini-2.5-flash'']"
proof -
  let ?a = "\<lparr>gemini_api_key = None, selected_model = Some ''gemini-2.5-flash''\<rparr>"
  let ?b = "\<lparr>gemini_api_key = None, selected_model = Some ''gemini-1.5-pro''\<rparr>"
  have a: "getSelectedModel ?a = ''gemini-2.5-flash''" and b: "getSelectedModel ?b = ''gemini-1.5-pro''"
    by (simp_all add: getSelectedModel_def)
  have ia: "''gemini-2.5-flash'' \<in> set FALLBACK_MODELS" and ib: "''gemini-1.5-pro'' \<notin> set FALLBACK_MODELS"
    by (simp_all add: FALLBACK_MODELS_def)
  from getFallbackModels_candidates [OF a] ia
  have "distinct (getFallbackModels ?a)" "hd (getFallbackModels ?a) = ''gemini-2.5-flash''"
    by blast+
  moreover from getFallbackModels_candidates [OF b] ib
  have "getFallbackModels ?b = ''gemini-1.5-pro'' # FALLBACK_MODELS" by simp
  moreover have "getFallbackModels ?a
      = [''gemini-2.5-flash'', ''gemini-3-flash-preview'', ''gemini-3-pro-preview'']"
    by (simp add: getFallbackModels_def getSelectedModel_def FALLBACK_MODELS_def)
  ultimately show ?thesis by (simp add: FALLBACK_MODELS_def)
qed

section \<open>The classification of errors\<close>

declare decimal_digits.simps [simp del]

lemma str_includes_prefix: "str_includes (sub @ q) sub"
proof (cases "sub @ q")
  case Nil
  then show ?thesis by simp
next
  case (Cons c cs)
  have "take (length sub) (c # cs) = sub" unfolding Cons [symmetric] by simp
  then show ?thesis unfolding Cons by simp
qed

lemma str_includes_append: "str_includes (p @ sub @ q) sub"
  by (induction p) (simp_all add: str_includes_prefix)

lemma toLowerCase_space:
  "toLowerCase (xs @ CHR '' '' # ys) = toLowerCase xs @ CHR '' '' # toLowerCase ys"
proof (induction xs rule: toLowerCase.induct)
  case 1
  show ?case by (simp add: lower_ascii_def)
next
  case (2 c cs)
  show ?case
  proof (cases "c = CHR 0xC3 \<and> take 1 cs = [CHR 0x81]")
    case True
    then obtain cs' where cs: "cs = CHR 0x81 # cs'" by (cases cs) auto
    with True "2.IH"(1) show ?thesis by simp
  next
    case False
    note f1 = this
    show ?thesis
    proof (cases "c = CHR 0xE1 \<and> take 2 cs = [CHR 0xBB, CHR 0x9C]")
      case True
      then obtain cs' where cs: "cs = CHR 0xBB # CHR 0x9C # cs'"
        by (cases cs; cases "tl cs") auto
      with True "2.IH"(2) show ?thesis by simp
    next
      case False
      have a: "\<not> (c = CHR 0xC3 \<and> take 1 (cs @ CHR '' '' # ys) = [CHR 0x81])"
        using f1 by (cases cs) auto
      have b: "\<not> (c = CHR 0xE1 \<and> take 2 (cs @ CHR '' '' # ys) = [CHR 0xBB, CHR 0x9C])"
        using False by (cases cs; cases "tl cs") auto
      have l: "toLowerCase (c # (cs @ CHR '' '' # ys)) = lower_ascii c # toLowerCase (cs @ CHR '' '' # ys)"
        using a b by (simp only: toLowerCase.simps if_False)
      have r: "toLowerCase (c # cs) = lower_ascii c # toLowerCase cs"
        using f1 False by (simp only: toLowerCase.simps if_False)
      show ?thesis
        unfolding append_Cons l r "2.IH"(3) [OF f1 False] ..
    qed
  qed
qed

lemma toLowerCase_marker: "toLowerCase TIMEOUT_MARKER = TIMEOUT_MARKER"
  by code_simp

lemma timeout_message_split:
  "timeout_message label ms =
     ([CHR 0xE2, CHR 0x8F, CHR 0xB1, CHR 0xEF, CHR 0xB8, CHR 0x8F] @ '' '' @ label)
     @ CHR '' '' # TIMEOUT_MARKER @ CHR '' '' #
     (''('' @ decimal_digits ((ms + 500) div 1000)
      @ ''s). B'' @ [CHR 0xC3, CHR 0xA9] @ '' h'' @ [CHR 0xC3, CHR 0xA3] @ ''y th''
      @ [CHR 0xE1, CHR 0xBB, CHR 0xAD] @ '' l'' @ [CHR 0xE1, CHR 0xBA, CHR 0xA1] @ ''i nh''
      @ [CHR 0xC3, CHR 0xA9] @ ''!'')"
  unfolding timeout_message_def TIMEOUT_MARKER_def by simp

text \<open>
  Whatever the label and the deadline, the error of the timeout guard is classified as a
  timeout: lower-casing leaves the marker in place.
\<close>

lemma guard_error_is_timeout: "isTimeoutError (new_Error (timeout_message label ms))"
proof -
  define a where "a = [CHR 0xE2, CHR 0x8F, CHR 0xB1, CHR 0xEF, CHR 0xB8, CHR 0x8F] @ '' '' @ label"
  define b where "b = ''('' @ decimal_digits ((ms + 500) div 1000)
      @ ''s). B'' @ [CHR 0xC3, CHR 0xA9] @ '' h'' @ [CHR 0xC3, CHR 0xA3] @ ''y th''
      @ [CHR 0xE1, CHR 0xBB, CHR 0xAD] @ '' l'' @ [CHR 0xE1, CHR 0xBA, CHR 0xA1] @ ''i nh''
      @ [CHR 0xC3, CHR 0xA9] @ ''!''"
  have m: "timeout_message label ms = a @ CHR '' '' # TIMEOUT_MARKER @ CHR '' '' # b"
    unfolding a_def b_def by (rule timeout_message_split)
  have "toLowerCase (timeout_message label ms)
          = toLowerCase a @ CHR '' '' # toLowerCase (TIMEOUT_MARKER @ CHR '' '' # b)"
    unfolding m by (rule toLowerCase_space)
  also have "\<dots> = toLowerCase a @ CHR '' '' # TIMEOUT_MARKER @ CHR '' '' # toLowerCase b"
    unfolding toLowerCase_space [of TIMEOUT_MARKER b] toLowerCase_marker ..
  also have "\<dots> = (toLowerCase a @ '' '') @ TIMEOUT_MARKER @ (CHR '' '' # toLowerCase b)"
    by simp
  finally have "str_includes (toLowerCase (timeout_message label ms)) TIMEOUT_MARKER"
    by (simp only: str_includes_append)
  moreover have "timeout_message label ms \<noteq> []" unfolding m a_def by simp
  ultimately show ?thesis
    unfolding isTimeoutError_def errorStr_def new_Error_def or_else_def by simp
qed

lemma missing_key_class:
  "\<not> isTimeoutError (new_Error MISSING_API_KEY_MESSAGE)" "\<not> isQuotaError (new_Error MISSING_API_KEY_MESSAGE)"
  by code_simp+

section \<open>Properties of the orchestrator\<close>

text \<open>The steps of the inner loop, one lemma for each way through its body.\<close>

declare attempt_loop.simps [simp del]

lemma attempt_loop_done: "\<not> attempt < L \<Longrightarrow> attempt_loop fn L tmo model attempt delay st = (None, st)"
  by (subst attempt_loop.simps) simp

lemma attempt_loop_success:
  assumes "attempt < L" "fn model (world st) = (Resolves v, w)"
  shows "attempt_loop fn L tmo model attempt delay st
           = (Some v, st\<lparr>world := w, trace := trace st @ [Invoke model]\<rparr>)"
  using assms by (subst attempt_loop.simps) (simp add: withTimeout_def)

lemma attempt_loop_timeout:
  assumes "attempt < L" "withTimeout (fst (fn model (world st))) tmo (''Model '' @ model) = Inl err"
    "isTimeoutError err"
  shows "attempt_loop fn L tmo model attempt delay st
           = (None, st\<lparr>lastError := Some err, world := snd (fn model (world st)),
                        trace := trace st @ [Invoke model]\<rparr>)"
  using assms by (subst attempt_loop.simps) (simp add: split_beta Let_def)

lemma attempt_loop_retry:
  assumes "attempt + 1 < L" "fn model (world st) = (Rejects err, w)"
    "isQuotaError err" "\<not> isTimeoutError err"
  shows "attempt_loop fn L tmo model attempt delay st
           = attempt_loop fn L tmo model (attempt + 1) (delay * (5 / 2))
               (st\<lparr>lastError := Some err, world := w,
                   trace := trace st @ [Invoke model, Wait delay]\<rparr>)"
proof -
  from assms(1) have "attempt < L" "attempt < L - 1" by simp_all
  with assms(2-4) show ?thesis
    by (subst attempt_loop.simps) (simp add: withTimeout_def Let_def)
qed

lemma model_loop_append:
  "model_loop fn L tmo (pre @ models) st =
     (case model_loop fn L tmo pre st of
        (Some v, st') \<Rightarrow> (Some v, st')
      | (None, st') \<Rightarrow> model_loop fn L tmo models st')"
  by (induction pre arbitrary: st) (auto split: prod.splits option.splits)


lemma model_loop_timeouts:
  assumes "\<forall>model \<in> set models. \<forall>w. \<exists>e. caught fn tmo model w = Inl e \<and> isTimeoutError e"
    and "0 < L"
  shows "\<exists>st'. model_loop fn L tmo models st = (None, st') \<and>
           trace st' = trace st @ map Invoke models \<and>
           (models = [] \<longrightarrow> st' = st) \<and>
           (models \<noteq> [] \<longrightarrow>
              (\<exists>e w0. caught fn tmo (last models) w0 = Inl e \<and> isTimeoutError e \<and>
                      lastError st' = Some e \<and> world st' = snd (fn (last models) w0)))"
  using assms(1)
proof (induction models arbitrary: st)
  case Nil
  then show ?case by simp
next
  case (Cons model models)
  from Cons.prems have "\<forall>w. \<exists>e. caught fn tmo model w = Inl e \<and> isTimeoutError e"
    by simp
  then obtain e where e: "caught fn tmo model (world st) = Inl e" "isTimeoutError e"
    by blast
  define st1 where "st1 = st\<lparr>lastError := Some e, world := snd (fn model (world st)),
                        trace := trace st @ [Invoke model]\<rparr>"
  have a: "attempt_loop fn L tmo model 0 1500 st = (None, st1)"
    unfolding st1_def using e assms(2) by (intro attempt_loop_timeout) (simp_all add: caught_def)
  from Cons.prems have "\<forall>model \<in> set models. \<forall>w. \<exists>e. caught fn tmo model w = Inl e \<and> isTimeoutError e"
    by simp
  from Cons.IH [OF this, of st1] obtain st' where s: "model_loop fn L tmo models st1 = (None, st')"
    "trace st' = trace st1 @ map Invoke models" "models = [] \<longrightarrow> st' = st1"
    "models \<noteq> [] \<longrightarrow> (\<exists>e w0. caught fn tmo (last models) w0 = Inl e \<and> isTimeoutError e \<and>
                      lastError st' = Some e \<and> world st' = snd (fn (last models) w0))"
    by blast
  have "\<exists>e w0. caught fn tmo (last (model # models)) w0 = Inl e \<and> isTimeoutError e \<and>
                      lastError st' = Some e \<and> world st' = snd (fn (last (model # models)) w0)"
  proof (cases "models = []")
    case True
    with s(3) have "st' = st1" by simp
    with True e show ?thesis unfolding st1_def by auto
  next
    case False
    with s(4) show ?thesis by simp
  qed
  with a s(1,2) show ?case by (simp add: st1_def)
qed

lemma getFallbackModels_nonempty: "getFallbackModels ls \<noteq> []"
  by (simp add: getFallbackModels_def Let_def)

lemma errMsg_message: "message e = Some m \<Longrightarrow> m \<noteq> [] \<Longrightarrow> errMsg (Some e) = m"
  by (simp add: errMsg_def or_else_def)

text \<open>
  With a retry limit of 0 the inner loop has no iteration: no model is tried, and the
  aggregate error is thrown at once, with \<open>undefined\<close> where the last error's message
  would stand.
\<close>

lemma zero_limit_no_attempt:
  fixes fn :: "string \<Rightarrow> 's \<Rightarrow> 'a promise \<times> 's"
  shows "callWithRetry fn 0 timeoutMs ls w = (Inl (new_Error (all_models_failed_message ''undefined'')), w, [])"
proof -
  have "model_loop fn 0 timeoutMs models st = (None, st)" for models and st :: "'s run_state"
    by (induction models) (simp_all add: attempt_loop_done)
  then show ?thesis
    unfolding callWithRetry_def Let_def by (simp add: errMsg_def)
qed

text \<open>The aggregate error's message, byte by byte: the heading, the description of the
  last error, and the advice after an empty line.\<close>

lemma all_models_failed_message_bytes:
  "all_models_failed_message d =
     (''T'' @ [CHR 0xE1, CHR 0xBA, CHR 0xA4] @ ''T C'' @ [CHR 0xE1, CHR 0xBA, CHR 0xA2] @ '' MODEL ''
       @ [CHR 0xC4, CHR 0x90, CHR 0xE1, CHR 0xBB, CHR 0x80] @ ''U L'' @ [CHR 0xE1, CHR 0xBB, CHR 0x96] @ ''I: '')
     @ d @
     ([CHR 0x0A, CHR 0x0A] @ ''B'' @ [CHR 0xC3, CHR 0xA9] @ '' h'' @ [CHR 0xC3, CHR 0xA3] @ ''y ki''
       @ [CHR 0xE1, CHR 0xBB, CHR 0x83] @ ''m tra API Key ho'' @ [CHR 0xE1, CHR 0xBA, CHR 0xB7] @ ''c ch''
       @ [CHR 0xE1, CHR 0xBB, CHR 0x9D] @ '' 30 gi'' @ [CHR 0xC3, CHR 0xA2] @ ''y r'' @ [CHR 0xE1, CHR 0xBB, CHR 0x93]
       @ ''i th'' @ [CHR 0xE1, CHR 0xBB, CHR 0xAD] @ '' l'' @ [CHR 0xE1, CHR 0xBA, CHR 0xA1] @ ''i nh''
       @ [CHR 0xC3, CHR 0xA9] @ ''!'')"
  unfolding all_models_failed_message_def by simp

text \<open>An error classified as a timeout that has no message (or an empty one) carries the
  marker in its JSON text, which is therefore present and is what the aggregate embeds.\<close>

lemma timeout_without_message:
  assumes "isTimeoutError e" "message e = None \<or> message e = Some []"
  shows "\<exists>s. stringified e = Some s \<and> s \<noteq> [] \<and> errMsg (Some e) = s"
proof -
  have n: "\<not> str_includes [] TIMEOUT_MARKER" by (simp add: TIMEOUT_MARKER_def)
  show ?thesis
  proof (cases "stringified e")
    case None
    with assms n show ?thesis
      unfolding isTimeoutError_def errorStr_def or_else_def by auto
  next
    case (Some s)
    with assms n have "s \<noteq> []"
      unfolding isTimeoutError_def errorStr_def or_else_def by auto
    with Some assms(2) show ?thesis
      unfolding errMsg_def or_else_def by auto
  qed
qed

text \<open>
  C2 (as amended). Suppose that for every candidate model and in every state of the world
  the invocation of the callback ends in an error the orchestrator classifies as a timeout
  (the callback is still pending at the deadline, or it rejects with an error that holds
  the timeout marker), and let the retry limit be any number from 1 on. Then
  \<open>callWithRetry\<close> invokes the callback once for each candidate model, in the order of
  the list, waits never, and throws an error with no status whose message is the heading
  (\<open>TAT CA MODEL DEU LOI:\<close> with its diacritics, in UTF-8), the description \<open>d\<close> of the
  error of the last invocation (the one for the last candidate), an empty line and the
  advice to check the key or to wait. The description \<open>d\<close> is that error's message when
  it has a non-empty one, and its JSON text otherwise.
\<close>

theorem timeouts_one_attempt_per_model:
  assumes "\<forall>model \<in> set (getFallbackModels ls). \<forall>w. \<exists>e. caught fn timeoutMs model w = Inl e \<and> isTimeoutError e"
    and "0 < maxRetriesPerModel"
  shows "\<exists>e w0 d. callWithRetry fn maxRetriesPerModel timeoutMs ls w
                  = (Inl \<lparr>message = Some (
     (''T'' @ [CHR 0xE1, CHR 0xBA, CHR 0xA4] @ ''T C'' @ [CHR 0xE1, CHR 0xBA, CHR 0xA2] @ '' MODEL ''
       @ [CHR 0xC4, CHR 0x90, CHR 0xE1, CHR 0xBB, CHR 0x80] @ ''U L'' @ [CHR 0xE1, CHR 0xBB, CHR 0x96] @ ''I: '')
     @ d @
     ([CHR 0x0A, CHR 0x0A] @ ''B'' @ [CHR 0xC3, CHR 0xA9] @ '' h'' @ [CHR 0xC3, CHR 0xA3] @ ''y ki''
       @ [CHR 0xE1, CHR 0xBB, CHR 0x83] @ ''m tra API Key ho'' @ [CHR 0xE1, CHR 0xBA, CHR 0xB7] @ ''c ch''
       @ [CHR 0xE1, CHR 0xBB, CHR 0x9D] @ '' 30 gi'' @ [CHR 0xC3, CHR 0xA2] @ ''y r'' @ [CHR 0xE1, CHR 0xBB, CHR 0x93]
       @ ''i th'' @ [CHR 0xE1, CHR 0xBB, CHR 0xAD] @ '' l'' @ [CHR 0xE1, CHR 0xBA, CHR 0xA1] @ ''i nh''
       @ [CHR 0xC3, CHR 0xA9] @ ''!'')),
                          status = None, stringified = Some ''{}''\<rparr>,
                     snd (fn (last (getFallbackModels ls)) w0),
                     map Invoke (getFallbackModels ls)) \<and>
                caught fn timeoutMs (last (getFallbackModels ls)) w0 = Inl e \<and>
                isTimeoutError e \<and>
                (\<forall>m. message e = Some m \<and> m \<noteq> [] \<longrightarrow> d = m) \<and>
                (message e = None \<or> message e = Some [] \<longrightarrow> stringified e = Some d)"
proof -
  let ?st = "\<lparr>lastError = None, world = w, trace = []\<rparr>"
  from model_loop_timeouts [OF assms, of ?st] getFallbackModels_nonempty [of ls]
  obtain st' e w0 where s: "model_loop fn maxRetriesPerModel timeoutMs (getFallbackModels ls) ?st = (None, st')"
    "trace st' = map Invoke (getFallbackModels ls)"
    "caught fn timeoutMs (last (getFallbackModels ls)) w0 = Inl e" "isTimeoutError e"
    "lastError st' = Some e" "world st' = snd (fn (last (getFallbackModels ls)) w0)"
    by auto
  have "callWithRetry fn maxRetriesPerModel timeoutMs ls w
                  = (Inl (new_Error (all_models_failed_message (errMsg (Some e)))),
                     snd (fn (last (getFallbackModels ls)) w0),
                     map Invoke (getFallbackModels ls))"
    unfolding callWithRetry_def Let_def s(1) using s(2,5,6) by simp
  then have c: "callWithRetry fn maxRetriesPerModel timeoutMs ls w
                  = (Inl \<lparr>message = Some (
     (''T'' @ [CHR 0xE1, CHR 0xBA, CHR 0xA4] @ ''T C'' @ [CHR 0xE1, CHR 0xBA, CHR 0xA2] @ '' MODEL ''
       @ [CHR 0xC4, CHR 0x90, CHR 0xE1, CHR 0xBB, CHR 0x80] @ ''U L'' @ [CHR 0xE1, CHR 0xBB, CHR 0x96] @ ''I: '')
     @ errMsg (Some e) @
     ([CHR 0x0A, CHR 0x0A] @ ''B'' @ [CHR 0xC3, CHR 0xA9] @ '' h'' @ [CHR 0xC3, CHR 0xA3] @ ''y ki''
       @ [CHR 0xE1, CHR 0xBB, CHR 0x83] @ ''m tra API Key ho'' @ [CHR 0xE1, CHR 0xBA, CHR 0xB7] @ ''c ch''
       @ [CHR 0xE1, CHR 0xBB, CHR 0x9D] @ '' 30 gi'' @ [CHR 0xC3, CHR 0xA2] @ ''y r'' @ [CHR 0xE1, CHR 0xBB, CHR 0x93]
       @ ''i th'' @ [CHR 0xE1, CHR 0xBB, CHR 0xAD] @ '' l'' @ [CHR 0xE1, CHR 0xBA, CHR 0xA1] @ ''i nh''
       @ [CHR 0xC3, CHR 0xA9] @ ''!'')),
                          status = None, stringified = Some ''{}''\<rparr>,
                     snd (fn (last (getFallbackModels ls)) w0),
                     map Invoke (getFallbackModels ls))"
    unfolding new_Error_def all_models_failed_message_bytes .
  have m: "\<forall>m. message e = Some m \<and> m \<noteq> [] \<longrightarrow> errMsg (Some e) = m"
    using errMsg_message by blast
  have j: "message e = None \<or> message e = Some [] \<longrightarrow> stringified e = Some (errMsg (Some e))"
    using timeout_without_message [OF s(4)] by auto
  from c s(3,4) m j show ?thesis by blast
qed

lemma pending_timeout_message:
  "timeout_message ''Model gemini-2.5-flash'' 60000 =
     [CHR 0xE2, CHR 0x8F, CHR 0xB1, CHR 0xEF, CHR 0xB8, CHR 0x8F] @ '' Model gemini-2.5-flash qu''
       @ [CHR 0xC3, CHR 0xA1] @ '' th'' @ [CHR 0xE1, CHR 0xBB, CHR 0x9D] @ ''i gian (60s). B'' @ [CHR 0xC3, CHR 0xA9]
       @ '' h'' @ [CHR 0xC3, CHR 0xA3] @ ''y th'' @ [CHR 0xE1, CHR 0xBB, CHR 0xAD] @ '' l''
       @ [CHR 0xE1, CHR 0xBA, CHR 0xA1] @ ''i nh'' @ [CHR 0xC3, CHR 0xA9] @ ''!''"
  proof -
  have "digit_char 6 = CHR ''6''" "digit_char 0 = CHR ''0''"
    by code_simp+
  then have "decimal_digits ((60000 + 500) div 1000) = ''60''"
    by (simp add: decimal_digits.simps)
  then show ?thesis
    unfolding timeout_message_def by simp
qed

theorem timeouts_one_attempt_per_model_witness:
  "fst (callWithRetry always_pending 3 60000 \<lparr>gemini_api_key = Some ''k'', selected_model = None\<rparr> 0)
     = Inl \<lparr>message = Some (
     (''T'' @ [CHR 0xE1, CHR 0xBA, CHR 0xA4] @ ''T C'' @ [CHR 0xE1, CHR 0xBA, CHR 0xA2] @ '' MODEL ''
       @ [CHR 0xC4, CHR 0x90, CHR 0xE1, CHR 0xBB, CHR 0x80] @ ''U L'' @ [CHR 0xE1, CHR 0xBB, CHR 0x96] @ ''I: '')
     @ ([CHR 0xE2, CHR 0x8F, CHR 0xB1, CHR 0xEF, CHR 0xB8, CHR 0x8F] @ '' Model gemini-2.5-flash qu''
       @ [CHR 0xC3, CHR 0xA1] @ '' th'' @ [CHR 0xE1, CHR 0xBB, CHR 0x9D] @ ''i gian (60s). B'' @ [CHR 0xC3, CHR 0xA9]
       @ '' h'' @ [CHR 0xC3, CHR 0xA3] @ ''y th'' @ [CHR 0xE1, CHR 0xBB, CHR 0xAD] @ '' l''
       @ [CHR 0xE1, CHR 0xBA, CHR 0xA1] @ ''i nh'' @ [CHR 0xC3, CHR 0xA9] @ ''!'') @
     ([CHR 0x0A, CHR 0x0A] @ ''B'' @ [CHR 0xC3, CHR 0xA9] @ '' h'' @ [CHR 0xC3, CHR 0xA3] @ ''y ki''
       @ [CHR 0xE1, CHR 0xBB, CHR 0x83] @ ''m tra API Key ho'' @ [CHR 0xE1, CHR 0xBA, CHR 0xB7] @ ''c ch''
       @ [CHR 0xE1, CHR 0xBB, CHR 0x9D] @ '' 30 gi'' @ [CHR 0xC3, CHR 0xA2] @ ''y r'' @ [CHR 0xE1, CHR 0xBB, CHR 0x93]
       @ ''i th'' @ [CHR 0xE1, CHR 0xBB, CHR 0xAD] @ '' l'' @ [CHR 0xE1, CHR 0xBA, CHR 0xA1] @ ''i nh''
       @ [CHR 0xC3, CHR 0xA9] @ ''!'')),
            status = None, stringified = Some ''{}''\<rparr> \<and>
   snd (snd (callWithRetry always_pending 3 60000 \<lparr>gemini_api_key = Some ''k'', selected_model = None\<rparr> 0))
     = [Invoke ''gemini-3-flash-preview'', Invoke ''gemini-3-pro-preview'', Invoke ''gemini-2.5-flash'']"
proof -
  let ?ls = "\<lparr>gemini_api_key = Some ''k'', selected_model = None\<rparr>"
  have c: "caught always_pending 60000 model n = Inl (new_Error (timeout_message (''Model '' @ model) 60000))" for model n
    by (simp add: caught_def withTimeout_def always_pending_def)
  have h: "\<forall>model \<in> set (getFallbackModels ?ls). \<forall>w. \<exists>e. caught always_pending 60000 model w = Inl e \<and> isTimeoutError e"
    unfolding c using guard_error_is_timeout by blast
  have g: "getFallbackModels ?ls = [''gemini-3-flash-preview'', ''gemini-3-pro-preview'', ''gemini-2.5-flash'']"
    by (simp add: getFallbackModels_def getSelectedModel_def FALLBACK_MODELS_def)
  from timeouts_one_attempt_per_model [OF h, of 3 0]
  obtain e w0 d where r: "callWithRetry always_pending 3 60000 ?ls 0
                  = (Inl \<lparr>message = Some (
     (''T'' @ [CHR 0xE1, CHR 0xBA, CHR 0xA4] @ ''T C'' @ [CHR 0xE1, CHR 0xBA, CHR 0xA2] @ '' MODEL ''
       @ [CHR 0xC4, CHR 0x90, CHR 0xE1, CHR 0xBB, CHR 0x80] @ ''U L'' @ [CHR 0xE1, CHR 0xBB, CHR 0x96] @ ''I: '')
     @ d @
     ([CHR 0x0A, CHR 0x0A] @ ''B'' @ [CHR 0xC3, CHR 0xA9] @ '' h'' @ [CHR 0xC3, CHR 0xA3] @ ''y ki''
       @ [CHR 0xE1, CHR 0xBB, CHR 0x83] @ ''m tra API Key ho'' @ [CHR 0xE1, CHR 0xBA, CHR 0xB7] @ ''c ch''
       @ [CHR 0xE1, CHR 0xBB, CHR 0x9D] @ '' 30 gi'' @ [CHR 0xC3, CHR 0xA2] @ ''y r'' @ [CHR 0xE1, CHR 0xBB, CHR 0x93]
       @ ''i th'' @ [CHR 0xE1, CHR 0xBB, CHR 0xAD] @ '' l'' @ [CHR 0xE1, CHR 0xBA, CHR 0xA1] @ ''i nh''
       @ [CHR 0xC3, CHR 0xA9] @ ''!'')),
                          status = None, stringified = Some ''{}''\<rparr>,
                     snd (always_pending (last (getFallbackModels ?ls)) w0),
                     map Invoke (getFallbackModels ?ls))"
      "caught always_pending 60000 (last (getFallbackModels ?ls)) w0 = Inl e"
      "\<forall>m. message e = Some m \<and> m \<noteq> [] \<longrightarrow> d = m"
    by auto
  from r(2) have e: "e = new_Error (timeout_message ''Model gemini-2.5-flash'' 60000)"
    unfolding c g by simp
  have ne: "timeout_message ''Model gemini-2.5-flash'' 60000 \<noteq> []"
    unfolding timeout_message_split by simp
  with r(3) have m: "d = timeout_message ''Model gemini-2.5-flash'' 60000"
    unfolding e by (simp add: new_Error_def)
  from r(1) show ?thesis unfolding m g pending_timeout_message by simp
qed

text \<open>
  The claim as stated fails for a retry limit of 0: the callback below is pending at the
  deadline of every invocation, so every invocation would end in a timeout, and yet with
  the limit 0 \<open>callWithRetry\<close> invokes it for no model (the trace is empty, the world
  untouched) and throws the aggregate error with \<open>undefined\<close> in the place of a message.
\<close>

theorem timeouts_zero_limit_counterexample:
  "isTimeoutError (new_Error (timeout_message ''Model gemini-3-flash-preview'' 60000)) \<and>
   caught always_pending 60000 ''gemini-3-flash-preview'' 0
     = Inl (new_Error (timeout_message ''Model gemini-3-flash-preview'' 60000)) \<and>
   callWithRetry always_pending 0 60000 \<lparr>gemini_api_key = Some ''k'', selected_model = None\<rparr> 0
     = (Inl \<lparr>message = Some (
     (''T'' @ [CHR 0xE1, CHR 0xBA, CHR 0xA4] @ ''T C'' @ [CHR 0xE1, CHR 0xBA, CHR 0xA2] @ '' MODEL ''
       @ [CHR 0xC4, CHR 0x90, CHR 0xE1, CHR 0xBB, CHR 0x80] @ ''U L'' @ [CHR 0xE1, CHR 0xBB, CHR 0x96] @ ''I: '')
     @ ''undefined'' @
     ([CHR 0x0A, CHR 0x0A] @ ''B'' @ [CHR 0xC3, CHR 0xA9] @ '' h'' @ [CHR 0xC3, CHR 0xA3] @ ''y ki''
       @ [CHR 0xE1, CHR 0xBB, CHR 0x83] @ ''m tra API Key ho'' @ [CHR 0xE1, CHR 0xBA, CHR 0xB7] @ ''c ch''
       @ [CHR 0xE1, CHR 0xBB, CHR 0x9D] @ '' 30 gi'' @ [CHR 0xC3, CHR 0xA2] @ ''y r'' @ [CHR 0xE1, CHR 0xBB, CHR 0x93]
       @ ''i th'' @ [CHR 0xE1, CHR 0xBB, CHR 0xAD] @ '' l'' @ [CHR 0xE1, CHR 0xBA, CHR 0xA1] @ ''i nh''
       @ [CHR 0xC3, CHR 0xA9] @ ''!'')),
             status = None, stringified = Some ''{}''\<rparr>, 0, [])"
proof -
  have "callWithRetry always_pending 0 60000 \<lparr>gemini_api_key = Some ''k'', selected_model = None\<rparr> 0
     = (Inl (new_Error (all_models_failed_message ''undefined'')), 0, [])"
    by (rule zero_limit_no_attempt)
  then show ?thesis
    unfolding new_Error_def all_models_failed_message_bytes
    using guard_error_is_timeout [of "''Model gemini-3-flash-preview''" 60000]
    by (simp add: caught_def withTimeout_def always_pending_def new_Error_def)
qed
lemma retry_events_closed:
  "retry_events M n d = concat (map (\<lambda>k. [Invoke M, Wait (d * (5 / 2) ^ k)]) [0..<n - 1]) @ (if n = 0 then [] else [Invoke M])"
proof (induction M n d rule: retry_events.induct)
  case (3 M n d)
  have "[0..<Suc n] = 0 # map Suc [0..<n]"
    by (simp add: upt_conv_Cons map_Suc_upt del: upt_Suc)
  then have "concat (map (\<lambda>k. [Invoke M, Wait (d * (5 / 2) ^ k)]) [0..<Suc n])
      = Invoke M # Wait d # concat (map (\<lambda>k. [Invoke M, Wait (d * (5 / 2) * (5 / 2) ^ k)]) [0..<n])"
    by (simp add: comp_def mult.assoc)
  with 3 show ?case by simp
qed simp_all

lemma count_retry_events: "count_list (retry_events M n d) (Invoke M) = n"
  by (induction M n d rule: retry_events.induct) simp_all

lemma attempt_loop_quota:
  assumes "quota_failures_then_success fn M n (world st) v w'" "attempt + n \<le> L"
  shows "\<exists>st'. attempt_loop fn L tmo M attempt delay st = (Some v, st') \<and>
               world st' = w' \<and> trace st' = trace st @ retry_events M n delay"
  using assms
proof (induction n arbitrary: st attempt delay)
  case 0
  then show ?case by simp
next
  case (Suc n)
  show ?case
  proof (cases n)
    case 0
    with Suc.prems have "fn M (world st) = (Resolves v, w')" "attempt < L" by simp_all
    with 0 show ?thesis by (simp add: attempt_loop_success)
  next
    case (Suc k)
    with Suc.prems(1) obtain err w1 where f: "fn M (world st) = (Rejects err, w1)"
      "isQuotaError err" "\<not> isTimeoutError err" "quota_failures_then_success fn M n w1 v w'"
      by (auto split: prod.splits promise.splits)
    define st1 where "st1 = st\<lparr>lastError := Some err, world := w1,
                   trace := trace st @ [Invoke M, Wait delay]\<rparr>"
    from Suc Suc.prems(2) have "attempt + 1 < L" by simp
    from attempt_loop_retry [where fn = fn and model = M and st = st, OF this f(1-3)]
    have a: "attempt_loop fn L tmo M attempt delay st
           = attempt_loop fn L tmo M (attempt + 1) (delay * (5 / 2)) st1"
      unfolding st1_def .
    have "quota_failures_then_success fn M n (world st1) v w'" "attempt + 1 + n \<le> L"
      using f(4) Suc.prems(2) unfolding st1_def by simp_all
    from Suc.IH [OF this] obtain st' where
      "attempt_loop fn L tmo M (attempt + 1) (delay * (5 / 2)) st1 = (Some v, st')"
      "world st' = w'" "trace st' = trace st1 @ retry_events M n (delay * (5 / 2))"
      by blast
    with a Suc show ?thesis unfolding st1_def by simp
  qed
qed

lemma attempt_loop_trace:
  "attempt_loop fn L tmo model attempt delay st = (r, st') \<Longrightarrow>
     \<exists>evs. trace st' = trace st @ evs \<and> (\<forall>m. Invoke m \<in> set evs \<longrightarrow> m = model)"
proof (induction fn L tmo model attempt delay st rule: attempt_loop.induct)
  case (1 fn L tmo model attempt delay st)
  show ?case
  proof (cases "attempt < L")
    case False
    with "1.prems" show ?thesis by (simp add: attempt_loop_done)
  next
    case True
    obtain p w where pw: "fn model (world st) = (p, w)" by (cases "fn model (world st)")
    show ?thesis
    proof (cases "withTimeout p tmo (''Model '' @ model)")
      case (Inr v)
      with True pw "1.prems" show ?thesis
        by (subst (asm) attempt_loop.simps) auto
    next
      case (Inl err)
      define st1 where "st1 = st\<lparr>lastError := Some err, world := w, trace := trace st @ [Invoke model]\<rparr>"
      show ?thesis
      proof (cases "\<not> isTimeoutError err \<and> isQuotaError err \<and> attempt < L - 1")
        case False
        with True pw Inl "1.prems" show ?thesis
          by (subst (asm) attempt_loop.simps) (auto simp: Let_def split: if_splits)
      next
        case c: True
        with True pw Inl "1.prems"
        have eq: "attempt_loop fn L tmo model (attempt + 1) (delay * (5 / 2)) (st1\<lparr>trace := trace st1 @ [Wait delay]\<rparr>) = (r, st')"
          unfolding st1_def by (subst (asm) attempt_loop.simps) (simp add: Let_def)
        from c have nt: "\<not> isTimeoutError err" and qa: "isQuotaError err \<and> attempt < L - 1" by simp_all
        from "1.IH" [OF True pw [symmetric] Inl st1_def nt qa eq]
        obtain evs where "trace st' = trace (st1\<lparr>trace := trace st1 @ [Wait delay]\<rparr>) @ evs"
          "\<forall>m. Invoke m \<in> set evs \<longrightarrow> m = model" by auto
        then show ?thesis unfolding st1_def by auto
      qed
    qed
  qed
qed

lemma model_loop_trace:
  "model_loop fn L tmo models st = (r, st') \<Longrightarrow>
     \<exists>evs. trace st' = trace st @ evs \<and> (\<forall>m. Invoke m \<in> set evs \<longrightarrow> m \<in> set models)"
proof (induction models arbitrary: st)
  case Nil
  then show ?case by simp
next
  case (Cons model models)
  obtain r1 st1 where a: "attempt_loop fn L tmo model 0 1500 st = (r1, st1)"
    by (cases "attempt_loop fn L tmo model 0 1500 st")
  from attempt_loop_trace [OF a] obtain evs1 where e1: "trace st1 = trace st @ evs1"
    "\<forall>m. Invoke m \<in> set evs1 \<longrightarrow> m = model" by blast
  show ?case
  proof (cases r1)
    case None
    with a Cons.prems have "model_loop fn L tmo models st1 = (r, st')" by simp
    from Cons.IH [OF this] obtain evs where "trace st' = trace st1 @ evs"
      "\<forall>m. Invoke m \<in> set evs \<longrightarrow> m \<in> set models" by blast
    with e1 have "trace st' = trace st @ (evs1 @ evs)" "\<forall>m. Invoke m \<in> set (evs1 @ evs) \<longrightarrow> m \<in> set (model # models)"
      by auto
    then show ?thesis by blast
  next
    case (Some v)
    with a Cons.prems have "st' = st1" by simp
    with e1 show ?thesis by auto
  qed
qed


text \<open>
  C1 (as amended). Let \<open>M\<close> be a candidate model that is reached (the candidates before
  it, if any, have been tried without success). Suppose the callback rejects its first
  \<open>N - 1\<close> invocations for \<open>M\<close> with errors that the orchestrator classifies as quota
  errors (status 429, or a message holding \<open>quota\<close> or \<open>resource_exhausted\<close>) and that
  do not hold the timeout marker, and resolves the \<open>N\<close>-th with the value \<open>v\<close>, where
  \<open>N\<close> is at most the retry limit. Then \<open>callWithRetry\<close> returns \<open>v\<close>; for \<open>M\<close> it
  invokes the callback exactly \<open>N\<close> times, with a wait before each retry; the \<open>k\<close>-th
  wait lasts 1500 * 2.5^k milliseconds (counting from 0), so each wait is strictly longer
  than the one before.
\<close>

theorem quota_retry_then_success:
  assumes "getFallbackModels ls = pre @ M # post"
    and "model_loop fn L timeoutMs pre \<lparr>lastError = None, world = w, trace = []\<rparr> = (None, st1)"
    and "quota_failures_then_success fn M N (world st1) v w'"
    and "N \<le> L"
  shows "callWithRetry fn L timeoutMs ls w
           = (Inr v, w',
              trace st1 @ concat (map (\<lambda>k. [Invoke M, Wait (1500 * (5 / 2) ^ k)]) [0..<N - 1])
              @ [Invoke M]) \<and>
         count_list (snd (snd (callWithRetry fn L timeoutMs ls w))) (Invoke M) = N \<and>
         (\<forall>k. (1500 :: rat) * (5 / 2) ^ k < 1500 * (5 / 2) ^ Suc k)"
proof -
  let ?st0 = "\<lparr>lastError = None, world = w, trace = []\<rparr>"
  from assms(3) have n: "N \<noteq> 0" by (cases N) simp_all
  from attempt_loop_quota [OF assms(3), of 0 L timeoutMs 1500] assms(4)
  obtain st' where a: "attempt_loop fn L timeoutMs M 0 1500 st1 = (Some v, st')"
    "world st' = w'" "trace st' = trace st1 @ retry_events M N 1500"
    by auto
  have "model_loop fn L timeoutMs (getFallbackModels ls) ?st0 = (Some v, st')"
    unfolding assms(1) model_loop_append assms(2) using a(1) by simp
  then have r: "callWithRetry fn L timeoutMs ls w = (Inr v, w', trace st1 @ retry_events M N 1500)"
    unfolding callWithRetry_def Let_def using a(2,3) by simp
  from model_loop_trace [OF assms(2)] obtain evs where e: "trace st1 = evs"
    "\<forall>m. Invoke m \<in> set evs \<longrightarrow> m \<in> set pre" by auto
  from distinct_getFallbackModels [of ls] have "M \<notin> set pre" unfolding assms(1) by simp
  with e have "Invoke M \<notin> set (trace st1)" by blast
  then have "count_list (trace st1) (Invoke M) = 0" by (simp add: count_list_0_iff)
  then have c: "count_list (trace st1 @ retry_events M N 1500) (Invoke M) = N"
    by (simp add: count_retry_events)
  have g: "(1500 :: rat) * (5 / 2) ^ k < 1500 * (5 / 2) ^ Suc k" for k
    by simp
  from r c g n show ?thesis
    unfolding retry_events_closed by simp
qed

lemma quota_twice_class:
  "isQuotaError \<lparr>message = Some ''Quota exceeded'', status = Some 429, stringified = Some ''{}''\<rparr>"
  "\<not> isTimeoutError \<lparr>message = Some ''Quota exceeded'', status = Some 429, stringified = Some ''{}''\<rparr>"
  by code_simp+

theorem quota_retry_then_success_witness:
  "callWithRetry quota_twice_callback 3 60000 \<lparr>gemini_api_key = Some ''k'', selected_model = None\<rparr> 0
     = (Inr 7, 3, [Invoke ''gemini-3-flash-preview'', Wait 1500,
                   Invoke ''gemini-3-flash-preview'', Wait 3750,
                   Invoke ''gemini-3-flash-preview'']) \<and>
   count_list (snd (snd (callWithRetry quota_twice_callback 3 60000
                           \<lparr>gemini_api_key = Some ''k'', selected_model = None\<rparr> 0)))
     (Invoke ''gemini-3-flash-preview'') = 3"
proof -
  let ?ls = "\<lparr>gemini_api_key = Some ''k'', selected_model = None\<rparr>"
  let ?st0 = "\<lparr>lastError = None, world = 0 :: nat, trace = []\<rparr>"
  have g: "getFallbackModels ?ls = [] @ ''gemini-3-flash-preview'' # [''gemini-3-pro-preview'', ''gemini-2.5-flash'']"
    by (simp add: getFallbackModels_def getSelectedModel_def FALLBACK_MODELS_def)
  have p: "model_loop quota_twice_callback 3 60000 [] ?st0 = (None, ?st0)" by simp
  have q: "quota_failures_then_success quota_twice_callback ''gemini-3-flash-preview'' 3 (world ?st0) 7 3"
    by (simp add: eval_nat_numeral quota_twice_callback_def quota_twice_class)
  have u: "[0..<3 - 1] = [0, 1]" by (simp add: eval_nat_numeral upt_rec)
  from quota_retry_then_success [OF g p q] show ?thesis
    unfolding u by simp
qed

lemma attempt_loop_failure:
  assumes "attempt < L" "fn model (world st) = (Rejects err, w)"
    "\<not> isTimeoutError err" "\<not> isQuotaError err"
  shows "attempt_loop fn L tmo model attempt delay st
           = (None, st\<lparr>lastError := Some err, world := w, trace := trace st @ [Invoke model]\<rparr>)"
  using assms by (subst attempt_loop.simps) (simp add: withTimeout_def Let_def)

lemma marked_quota_error_class:
  "isQuotaError marked_quota_error" "isTimeoutError marked_quota_error"
proof -
  show "isQuotaError marked_quota_error"
    by (simp add: isQuotaError_def marked_quota_error_def)
  show "isTimeoutError marked_quota_error" by code_simp
qed

lemma unavailable_class:
  "\<not> isTimeoutError (new_Error ''unavailable'')" "\<not> isQuotaError (new_Error ''unavailable'')"
  by code_simp+

text \<open>
  The claim without the proviso on the timeout marker fails. The error of the callback
  below has the status 429, so it is a quota error, and its message holds the timeout
  marker. The callback rejects the first invocation for the default model with it and
  would resolve the second; the retry limit is 2. The orchestrator tests for the marker
  first: it leaves the model after one invocation, the other models fail, and the call
  ends with the aggregate error.
\<close>

theorem quota_retry_counterexample:
  "isQuotaError marked_quota_error \<and>
   marked_quota_callback ''gemini-3-flash-preview'' 0 = (Rejects marked_quota_error, 1) \<and>
   marked_quota_callback ''gemini-3-flash-preview'' 1 = (Resolves 7, 2) \<and>
   callWithRetry marked_quota_callback 2 60000 \<lparr>gemini_api_key = Some ''k'', selected_model = None\<rparr> 0
     = (Inl (new_Error (all_models_failed_message ''unavailable'')), 3,
        [Invoke ''gemini-3-flash-preview'', Invoke ''gemini-3-pro-preview'', Invoke ''gemini-2.5-flash''])"
proof -
  let ?ls = "\<lparr>gemini_api_key = Some ''k'', selected_model = None\<rparr>"
  let ?e = "new_Error ''unavailable''"
  have g: "getFallbackModels ?ls = [''gemini-3-flash-preview'', ''gemini-3-pro-preview'', ''gemini-2.5-flash'']"
    by (simp add: getFallbackModels_def getSelectedModel_def FALLBACK_MODELS_def)
  have c0: "marked_quota_callback ''gemini-3-flash-preview'' 0 = (Rejects marked_quota_error, 1)"
    and c1: "marked_quota_callback ''gemini-3-flash-preview'' 1 = (Resolves 7, 2)"
    by (simp_all add: marked_quota_callback_def)
  have s1: "attempt_loop marked_quota_callback 2 60000 ''gemini-3-flash-preview'' 0 1500
              \<lparr>lastError = None, world = 0, trace = []\<rparr>
            = (None, \<lparr>lastError = Some marked_quota_error, world = 1,
                      trace = [Invoke ''gemini-3-flash-preview'']\<rparr>)"
    by (subst attempt_loop_timeout [where err = marked_quota_error])
       (simp_all add: marked_quota_callback_def withTimeout_def marked_quota_error_class)
  have s2: "attempt_loop marked_quota_callback 2 60000 ''gemini-3-pro-preview'' 0 1500
              \<lparr>lastError = Some marked_quota_error, world = 1, trace = [Invoke ''gemini-3-flash-preview'']\<rparr>
            = (None, \<lparr>lastError = Some ?e, world = 2,
                      trace = [Invoke ''gemini-3-flash-preview'', Invoke ''gemini-3-pro-preview'']\<rparr>)"
    by (subst attempt_loop_failure [where err = ?e and w = 2])
       (simp_all add: marked_quota_callback_def unavailable_class)
  have s3: "attempt_loop marked_quota_callback 2 60000 ''gemini-2.5-flash'' 0 1500
              \<lparr>lastError = Some ?e, world = 2,
                trace = [Invoke ''gemini-3-flash-preview'', Invoke ''gemini-3-pro-preview'']\<rparr>
            = (None, \<lparr>lastError = Some ?e, world = 3,
                      trace = [Invoke ''gemini-3-flash-preview'', Invoke ''gemini-3-pro-preview'',
                               Invoke ''gemini-2.5-flash'']\<rparr>)"
    by (subst attempt_loop_failure [where err = ?e and w = 3])
       (simp_all add: marked_quota_callback_def unavailable_class)
  have m: "errMsg (Some ?e) = ''unavailable''"
    by (simp add: errMsg_def or_else_def new_Error_def)
  have "callWithRetry marked_quota_callback 2 60000 ?ls 0
     = (Inl (new_Error (all_models_failed_message ''unavailable'')), 3,
        [Invoke ''gemini-3-flash-preview'', Invoke ''gemini-3-pro-preview'', Invoke ''gemini-2.5-flash''])"
    by (simp only: callWithRetry_def Let_def g model_loop.simps s1 s2 s3 prod.case option.case
          run_state.select_convs m)
  with c0 c1 marked_quota_error_class(1) show ?thesis by simp
qed

section \<open>Properties of the API functions\<close>

text \<open>
  A run in which every invocation rejects with an error that is neither a timeout nor a
  quota error to be retried: each model is invoked once, in order.
\<close>

lemma model_loop_all_reject:
  assumes "\<forall>model \<in> set models. \<forall>w. \<exists>e. fst (fn model w) = Rejects e \<and> \<not> isTimeoutError e \<and> (isQuotaError e \<longrightarrow> L = 1)"
    and "0 < L"
  shows "\<exists>st'. model_loop fn L tmo models st = (None, st') \<and>
           trace st' = trace st @ map Invoke models \<and>
           world st' = foldl (\<lambda>w m. snd (fn m w)) (world st) models \<and>
           (models = [] \<longrightarrow> st' = st) \<and>
           (models \<noteq> [] \<longrightarrow> (\<exists>e w0. fst (fn (last models) w0) = Rejects e \<and> lastError st' = Some e))"
  using assms(1)
proof (induction models arbitrary: st)
  case Nil
  then show ?case by simp
next
  case (Cons model models)
  from Cons.prems have "\<forall>w. \<exists>e. fst (fn model w) = Rejects e \<and> \<not> isTimeoutError e \<and> (isQuotaError e \<longrightarrow> L = 1)"
    by simp
  then obtain e where e: "fst (fn model (world st)) = Rejects e" "\<not> isTimeoutError e" "isQuotaError e \<longrightarrow> L = 1"
    by blast
  define st1 where "st1 = st\<lparr>lastError := Some e, world := snd (fn model (world st)),
                        trace := trace st @ [Invoke model]\<rparr>"
  have a: "attempt_loop fn L tmo model 0 1500 st = (None, st1)"
    unfolding st1_def using e assms(2)
    by (subst attempt_loop.simps) (auto simp: withTimeout_def Let_def split_beta)
  from Cons.prems have "\<forall>model \<in> set models. \<forall>w. \<exists>e. fst (fn model w) = Rejects e \<and> \<not> isTimeoutError e \<and> (isQuotaError e \<longrightarrow> L = 1)"
    by simp
  from Cons.IH [OF this, of st1] obtain st' where s: "model_loop fn L tmo models st1 = (None, st')"
    "trace st' = trace st1 @ map Invoke models"
    "world st' = foldl (\<lambda>w m. snd (fn m w)) (world st1) models"
    "models = [] \<longrightarrow> st' = st1"
    "models \<noteq> [] \<longrightarrow> (\<exists>e w0. fst (fn (last models) w0) = Rejects e \<and> lastError st' = Some e)"
    by blast
  have "\<exists>e w0. fst (fn (last (model # models)) w0) = Rejects e \<and> lastError st' = Some e"
  proof (cases "models = []")
    case True
    with s(4) have "st' = st1" by simp
    with True e show ?thesis unfolding st1_def by auto
  next
    case False
    with s(5) show ?thesis by simp
  qed
  with a s(1,2,3) show ?case by (simp add: st1_def)
qed

lemma callWithRetry_all_reject_fold:
  assumes "\<forall>model w. fst (fn model w) = Rejects e" "\<not> isTimeoutError e" "\<not> isQuotaError e" "0 < L"
  shows "callWithRetry fn L tmo ls w
           = (Inl (new_Error (all_models_failed_message (errMsg (Some e)))),
              foldl (\<lambda>w m. snd (fn m w)) w (getFallbackModels ls),
              map Invoke (getFallbackModels ls))"
proof -
  let ?st = "\<lparr>lastError = None, world = w, trace = []\<rparr>"
  have "\<forall>model \<in> set (getFallbackModels ls). \<forall>w. \<exists>e. fst (fn model w) = Rejects e \<and> \<not> isTimeoutError e \<and> (isQuotaError e \<longrightarrow> L = 1)"
    using assms(1-3) by simp
  from model_loop_all_reject [OF this assms(4), of tmo ?st] getFallbackModels_nonempty [of ls]
  obtain st' e' w0 where s: "model_loop fn L tmo (getFallbackModels ls) ?st = (None, st')"
    "trace st' = map Invoke (getFallbackModels ls)"
    "world st' = foldl (\<lambda>w m. snd (fn m w)) w (getFallbackModels ls)"
    "fst (fn (last (getFallbackModels ls)) w0) = Rejects e'" "lastError st' = Some e'"
    by auto
  from s(4) assms(1) have "e' = e" by simp
  then show ?thesis
    unfolding callWithRetry_def Let_def s(1) using s(2,3,5) by simp
qed

lemma callWithRetry_all_reject:
  assumes "\<forall>model w. fn model w = (Rejects e, w)" "\<not> isTimeoutError e" "\<not> isQuotaError e" "0 < L"
  shows "callWithRetry fn L tmo ls w
           = (Inl (new_Error (all_models_failed_message (errMsg (Some e)))), w,
              map Invoke (getFallbackModels ls))"
proof -
  have "foldl (\<lambda>w m. snd (fn m w)) w ms = w" for ms
    using assms(1) by (induction ms) simp_all
  moreover have "\<forall>model w. fst (fn model w) = Rejects e" using assms(1) by simp
  ultimately show ?thesis
    using callWithRetry_all_reject_fold [OF _ assms(2-4), of fn tmo ls w] by simp
qed

lemma getApiKey_error: "getApiKey ls = Inl err \<Longrightarrow> err = new_Error MISSING_API_KEY_MESSAGE"
  unfolding getApiKey_def Let_def by (auto split: if_splits)

lemma api_attempt_no_key: "getApiKey ls = Inl err \<Longrightarrow> api_attempt ls gen process model w = (Rejects err, w)"
  unfolding api_attempt_def by simp

lemma missing_key_errMsg: "errMsg (Some (new_Error MISSING_API_KEY_MESSAGE)) = MISSING_API_KEY_MESSAGE"
  by (simp add: errMsg_def or_else_def new_Error_def MISSING_API_KEY_MESSAGE_def)

lemma aggregate_differs: "new_Error (all_models_failed_message m) \<noteq> new_Error m"
proof
  assume "new_Error (all_models_failed_message m) = new_Error m"
  then have "all_models_failed_message m = m" by (simp add: new_Error_def)
  then have "length (all_models_failed_message m) = length m" by simp
  then show False unfolding all_models_failed_message_def by simp
qed

lemma no_key_call:
  assumes "getApiKey ls = Inl err" "\<forall>model w. fn model w = (Rejects err, w)"
  shows "callWithRetry fn DEFAULT_MAX_RETRIES DEFAULT_TIMEOUT_MS ls w
           = (Inl (new_Error (all_models_failed_message MISSING_API_KEY_MESSAGE)), w,
              map Invoke (getFallbackModels ls))"
proof -
  from assms(1) have e: "err = new_Error MISSING_API_KEY_MESSAGE" by (rule getApiKey_error)
  from callWithRetry_all_reject [OF assms(2)] missing_key_class show ?thesis
    unfolding e by (simp add: DEFAULT_MAX_RETRIES_def missing_key_errMsg)
qed

text \<open>
  C6 (as amended). When no API credential is stored (the key is absent or empty),
  \<open>getApiKey\<close> itself fails at once with the missing-credential error, an error with the
  message \<open>CHUA CO API KEY: ...\<close> (with its diacritics, in UTF-8) and no status. Each of
  the five API functions calls \<open>getApiKey\<close> inside the callback it hands to
  \<open>callWithRetry\<close>, so there the error is an attempt's failure: the callback is invoked
  once for every candidate model (no retry on the same model, no wait, and no request to
  the service: the world is left as it was), and the caller receives the aggregate error,
  whose message is the heading, the missing-credential message and the advice, and which
  is not the missing-credential error.
\<close>

theorem missing_credential_aggregate:
  fixes gen :: "string \<Rightarrow> string \<Rightarrow> 's \<Rightarrow> response promise \<times> 's"
    and parse_script :: "string \<Rightarrow> js_error + 'j"
    and parse_eval :: "string \<Rightarrow> js_error + 'p raw_evaluation"
  assumes "getApiKey ls = Inl err"
  shows "err = \<lparr>message = Some MISSING_API_KEY_MESSAGE, status = None, stringified = Some ''{}''\<rparr> \<and>
         MISSING_API_KEY_MESSAGE =
            (''CH'' @ [CHR 0xC6, CHR 0xAF] @ ''A C'' @ [CHR 0xC3, CHR 0x93] @ '' API KEY: B'' @ [CHR 0xC3, CHR 0xA9]
             @ '' vui l'' @ [CHR 0xC3, CHR 0xB2] @ ''ng nh'' @ [CHR 0xE1, CHR 0xBA, CHR 0xA5] @ ''n n''
             @ [CHR 0xC3, CHR 0xBA] @ ''t '' @ [CHR 0xE2, CHR 0x9A, CHR 0x99, CHR 0xEF, CHR 0xB8, CHR 0x8F]
             @ '' Settings '' @ [CHR 0xC4, CHR 0x91, CHR 0xE1, CHR 0xBB, CHR 0x83] @ '' nh''
             @ [CHR 0xE1, CHR 0xBA, CHR 0xAD] @ ''p API Key nh'' @ [CHR 0xC3, CHR 0xA9] @ ''!'') \<and>
         all_models_failed_message MISSING_API_KEY_MESSAGE =
            (''T'' @ [CHR 0xE1, CHR 0xBA, CHR 0xA4] @ ''T C'' @ [CHR 0xE1, CHR 0xBA, CHR 0xA2] @ '' MODEL ''
             @ [CHR 0xC4, CHR 0x90, CHR 0xE1, CHR 0xBB, CHR 0x80] @ ''U L'' @ [CHR 0xE1, CHR 0xBB, CHR 0x96] @ ''I: '')
            @ MISSING_API_KEY_MESSAGE @
            ([CHR 0x0A, CHR 0x0A] @ ''B'' @ [CHR 0xC3, CHR 0xA9] @ '' h'' @ [CHR 0xC3, CHR 0xA3] @ ''y ki''
             @ [CHR 0xE1, CHR 0xBB, CHR 0x83] @ ''m tra API Key ho'' @ [CHR 0xE1, CHR 0xBA, CHR 0xB7] @ ''c ch''
             @ [CHR 0xE1, CHR 0xBB, CHR 0x9D] @ '' 30 gi'' @ [CHR 0xC3, CHR 0xA2] @ ''y r'' @ [CHR 0xE1, CHR 0xBB, CHR 0x93]
             @ ''i th'' @ [CHR 0xE1, CHR 0xBB, CHR 0xAD] @ '' l'' @ [CHR 0xE1, CHR 0xBA, CHR 0xA1] @ ''i nh''
             @ [CHR 0xC3, CHR 0xA9] @ ''!'') \<and>
         (gemini_api_key ls = None \<or> gemini_api_key ls = Some []) \<and>
         generateImagePrompt ls gen theme w
           = (Inl (new_Error (all_models_failed_message MISSING_API_KEY_MESSAGE)), w,
              map Invoke (getFallbackModels ls)) \<and>
         generatePresentationScript ls gen parse_script w
           = (Inl (new_Error (all_models_failed_message MISSING_API_KEY_MESSAGE)), w,
              map Invoke (getFallbackModels ls)) \<and>
         generateScriptFromImage ls gen parse_script w
           = (Inl (new_Error (all_models_failed_message MISSING_API_KEY_MESSAGE)), w,
              map Invoke (getFallbackModels ls)) \<and>
         generateTeacherVoice ls gen atob audioContext thrown w
           = (Inl (new_Error (all_models_failed_message MISSING_API_KEY_MESSAGE)), w,
              map Invoke (getFallbackModels ls)) \<and>
         evaluatePresentation ls gen parse_eval level today w
           = (Inl (new_Error (all_models_failed_message MISSING_API_KEY_MESSAGE)), w,
              map Invoke (getFallbackModels ls)) \<and>
         new_Error (all_models_failed_message MISSING_API_KEY_MESSAGE)
           = \<lparr>message = Some (all_models_failed_message MISSING_API_KEY_MESSAGE), status = None,
              stringified = Some ''{}''\<rparr> \<and>
         new_Error (all_models_failed_message MISSING_API_KEY_MESSAGE) \<noteq> err"
proof -
  have e: "err = new_Error MISSING_API_KEY_MESSAGE"
    using assms by (rule getApiKey_error)
  have e': "err = \<lparr>message = Some MISSING_API_KEY_MESSAGE, status = None, stringified = Some ''{}''\<rparr>"
    unfolding e new_Error_def ..
  have b1: "MISSING_API_KEY_MESSAGE =
            (''CH'' @ [CHR 0xC6, CHR 0xAF] @ ''A C'' @ [CHR 0xC3, CHR 0x93] @ '' API KEY: B'' @ [CHR 0xC3, CHR 0xA9]
             @ '' vui l'' @ [CHR 0xC3, CHR 0xB2] @ ''ng nh'' @ [CHR 0xE1, CHR 0xBA, CHR 0xA5] @ ''n n''
             @ [CHR 0xC3, CHR 0xBA] @ ''t '' @ [CHR 0xE2, CHR 0x9A, CHR 0x99, CHR 0xEF, CHR 0xB8, CHR 0x8F]
             @ '' Settings '' @ [CHR 0xC4, CHR 0x91, CHR 0xE1, CHR 0xBB, CHR 0x83] @ '' nh''
             @ [CHR 0xE1, CHR 0xBA, CHR 0xAD] @ ''p API Key nh'' @ [CHR 0xC3, CHR 0xA9] @ ''!'')"
    unfolding MISSING_API_KEY_MESSAGE_def ..
  have b2: "all_models_failed_message MISSING_API_KEY_MESSAGE =
            (''T'' @ [CHR 0xE1, CHR 0xBA, CHR 0xA4] @ ''T C'' @ [CHR 0xE1, CHR 0xBA, CHR 0xA2] @ '' MODEL ''
             @ [CHR 0xC4, CHR 0x90, CHR 0xE1, CHR 0xBB, CHR 0x80] @ ''U L'' @ [CHR 0xE1, CHR 0xBB, CHR 0x96] @ ''I: '')
            @ MISSING_API_KEY_MESSAGE @
            ([CHR 0x0A, CHR 0x0A] @ ''B'' @ [CHR 0xC3, CHR 0xA9] @ '' h'' @ [CHR 0xC3, CHR 0xA3] @ ''y ki''
             @ [CHR 0xE1, CHR 0xBB, CHR 0x83] @ ''m tra API Key ho'' @ [CHR 0xE1, CHR 0xBA, CHR 0xB7] @ ''c ch''
             @ [CHR 0xE1, CHR 0xBB, CHR 0x9D] @ '' 30 gi'' @ [CHR 0xC3, CHR 0xA2] @ ''y r'' @ [CHR 0xE1, CHR 0xBB, CHR 0x93]
             @ ''i th'' @ [CHR 0xE1, CHR 0xBB, CHR 0xAD] @ '' l'' @ [CHR 0xE1, CHR 0xBA, CHR 0xA1] @ ''i nh''
             @ [CHR 0xC3, CHR 0xA9] @ ''!'')"
    by (rule all_models_failed_message_bytes)
  have k: "gemini_api_key ls = None \<or> gemini_api_key ls = Some []"
    using assms unfolding getApiKey_def Let_def by (auto split: option.splits if_splits)
  note n = api_attempt_no_key [OF assms]
  note c = no_key_call [OF assms]
  have g1: "generateImagePrompt ls gen theme w
           = (Inl (new_Error (all_models_failed_message MISSING_API_KEY_MESSAGE)), w,
              map Invoke (getFallbackModels ls))"
    unfolding generateImagePrompt_def by (rule c) (simp add: n)
  have g2: "generatePresentationScript ls gen parse_script w
           = (Inl (new_Error (all_models_failed_message MISSING_API_KEY_MESSAGE)), w,
              map Invoke (getFallbackModels ls))"
    unfolding generatePresentationScript_def script_callback_def by (rule c) (simp add: n)
  have g3: "generateScriptFromImage ls gen parse_script w
           = (Inl (new_Error (all_models_failed_message MISSING_API_KEY_MESSAGE)), w,
              map Invoke (getFallbackModels ls))"
    unfolding generateScriptFromImage_def script_callback_def by (rule c) (simp add: n)
  have g4: "generateTeacherVoice ls gen atob audioContext thrown w
           = (Inl (new_Error (all_models_failed_message MISSING_API_KEY_MESSAGE)), w,
              map Invoke (getFallbackModels ls))"
    unfolding generateTeacherVoice_def by (rule c) (simp add: n)
  have g5: "evaluatePresentation ls gen parse_eval level today w
           = (Inl (new_Error (all_models_failed_message MISSING_API_KEY_MESSAGE)), w,
              map Invoke (getFallbackModels ls))"
    unfolding evaluatePresentation_def evaluation_callback_def by (rule c) (simp add: n)
  have s: "new_Error (all_models_failed_message MISSING_API_KEY_MESSAGE)
           = \<lparr>message = Some (all_models_failed_message MISSING_API_KEY_MESSAGE), status = None,
              stringified = Some ''{}''\<rparr>"
    unfolding new_Error_def ..
  have d: "new_Error (all_models_failed_message MISSING_API_KEY_MESSAGE) \<noteq> err"
    unfolding e by (rule aggregate_differs)
  from e' b1 b2 k g1 g2 g3 g4 g5 s d show ?thesis by blast
qed

lemma default_candidates:
  "getFallbackModels \<lparr>gemini_api_key = k, selected_model = None\<rparr>
     = [''gemini-3-flash-preview'', ''gemini-3-pro-preview'', ''gemini-2.5-flash'']"
  by (simp add: getFallbackModels_def getSelectedModel_def FALLBACK_MODELS_def)

theorem missing_credential_aggregate_witness:
  "evaluatePresentation \<lparr>gemini_api_key = None, selected_model = None\<rparr> empty_service
      (literal_parse empty_raw) A1 ''3/11/2026'' 0
     = (Inl (new_Error (all_models_failed_message MISSING_API_KEY_MESSAGE)), 0,
        [Invoke ''gemini-3-flash-preview'', Invoke ''gemini-3-pro-preview'', Invoke ''gemini-2.5-flash'']) \<and>
   generateScriptFromImage \<lparr>gemini_api_key = None, selected_model = None\<rparr> empty_service
      (literal_parse default_script) 0
     = (Inl (new_Error (all_models_failed_message MISSING_API_KEY_MESSAGE)), 0,
        [Invoke ''gemini-3-flash-preview'', Invoke ''gemini-3-pro-preview'', Invoke ''gemini-2.5-flash''])"
proof -
  have k: "getApiKey \<lparr>gemini_api_key = None, selected_model = None\<rparr> = Inl (new_Error MISSING_API_KEY_MESSAGE)"
    by (simp add: getApiKey_def)
  note t = missing_credential_aggregate [OF k, where gen = empty_service and w = 0
      and parse_script = "literal_parse default_script" and parse_eval = "literal_parse empty_raw"
      and level = A1 and today = "''3/11/2026''", unfolded default_candidates]
  note g3 = t [THEN conjunct2, THEN conjunct2, THEN conjunct2, THEN conjunct2, THEN conjunct2,
      THEN conjunct2, THEN conjunct1]
  note g5 = t [THEN conjunct2, THEN conjunct2, THEN conjunct2, THEN conjunct2, THEN conjunct2,
      THEN conjunct2, THEN conjunct2, THEN conjunct2, THEN conjunct1]
  from g3 g5 show ?thesis by simp
qed

text \<open>
  The claim as stated fails: with no key stored, \<open>generateImagePrompt\<close> goes through the
  three candidate models and throws the aggregate error, not the missing-credential error.
\<close>

theorem missing_credential_counterexample:
  "getApiKey \<lparr>gemini_api_key = None, selected_model = None\<rparr> = Inl (new_Error MISSING_API_KEY_MESSAGE) \<and>
   generateImagePrompt \<lparr>gemini_api_key = None, selected_model = None\<rparr> empty_service ''cats'' 0
     = (Inl (new_Error (all_models_failed_message MISSING_API_KEY_MESSAGE)), 0,
        [Invoke ''gemini-3-flash-preview'', Invoke ''gemini-3-pro-preview'', Invoke ''gemini-2.5-flash'']) \<and>
   new_Error (all_models_failed_message MISSING_API_KEY_MESSAGE) \<noteq> new_Error MISSING_API_KEY_MESSAGE"
proof -
  have k: "getApiKey \<lparr>gemini_api_key = None, selected_model = None\<rparr> = Inl (new_Error MISSING_API_KEY_MESSAGE)"
    by (simp add: getApiKey_def)
  have "generateImagePrompt \<lparr>gemini_api_key = None, selected_model = None\<rparr> empty_service ''cats'' 0
     = (Inl (new_Error (all_models_failed_message MISSING_API_KEY_MESSAGE)), 0,
        map Invoke (getFallbackModels \<lparr>gemini_api_key = None, selected_model = None\<rparr>))"
    unfolding generateImagePrompt_def
    by (rule no_key_call [OF k]) (simp add: api_attempt_no_key [OF k])
  with k aggregate_differs [of MISSING_API_KEY_MESSAGE] show ?thesis
    unfolding default_candidates by simp
qed

lemma api_attempt_resolved:
  assumes "getApiKey ls = Inr apiKey" "gen apiKey model w = (Resolves r, w')"
  shows "api_attempt ls gen process model w
           = (case process r of Inl e \<Rightarrow> (Rejects e, w') | Inr v \<Rightarrow> (Resolves v, w'))"
  unfolding api_attempt_def using assms by simp

lemma callWithRetry_first_success:
  assumes "fn (getSelectedModel ls) w = (Resolves v, w')" "0 < L"
  shows "callWithRetry fn L tmo ls w = (Inr v, w', [Invoke (getSelectedModel ls)])"
proof -
  obtain others where g: "getFallbackModels ls = getSelectedModel ls # others"
    by (simp add: getFallbackModels_def Let_def)
  show ?thesis
    unfolding callWithRetry_def Let_def g using assms
    by (simp add: attempt_loop_success)
qed

lemma text_or_empty:
  "response_text r = None \<or> response_text r = Some [] \<Longrightarrow> text_or r d = d"
  "response_text r = Some t \<Longrightarrow> t \<noteq> [] \<Longrightarrow> text_or r d = t"
  unfolding text_or_def by auto

lemma evaluation_of_empty:
  assumes "raw_pronunciation raw = Absent" "raw_fluency raw = Absent" "raw_intonation raw = Absent"
    "raw_vocabulary raw = Absent" "raw_grammar raw = Absent" "raw_taskFulfillment raw = Absent"
  shows "evaluation_result raw level today
           = \<lparr>pronunciation = 0, fluency = 0, intonation = 0, vocabulary = 0, grammar = 0,
              taskFulfillment = 0, score = 0, perceivedLevel = level, keyVocabulary = [],
              evaluationDate = today, other = raw_other raw\<rparr>"
proof -
  have "Math_round 0 = 0" by code_simp
  with assms show ?thesis
    unfolding evaluation_result_def Let_def by (simp add: normalize_score_def)
qed


text \<open>
  C7 (as amended). Let the credential be configured and let the service's call of an
  attempt resolve with the response \<open>r\<close>.
  \<^item> When the body of \<open>r\<close> is absent or empty, the script generators parse the default
    text instead: the attempt resolves with its value \<open>d\<close>, the default object, and when
    the attempt is the first one (the preferred model) the function returns \<open>d\<close>.
  \<^item> In the same case the evaluator parses \<open>{}\<close>, normalises the empty object and
    returns a result whose six scores and aggregate score are 0.
  \<^item> When the body is not empty and the parser rejects it, the attempt fails with the
    parser's error, in the script generators and in the evaluator alike; the orchestrator
    then treats it like any other failure of the attempt.
\<close>

theorem empty_body_default:
  fixes generateContent :: "string \<Rightarrow> string \<Rightarrow> 's \<Rightarrow> response promise \<times> 's"
    and parse_script :: "string \<Rightarrow> js_error + 'j"
    and parse_eval :: "string \<Rightarrow> js_error + 'p raw_evaluation"
  assumes "getApiKey ls = Inr apiKey" and "generateContent apiKey model w = (Resolves r, w')"
  shows "((response_text r = None \<or> response_text r = Some []) \<and> parse_script DEFAULT_SCRIPT_TEXT = Inr d \<longrightarrow>
            script_callback ls generateContent parse_script model w = (Resolves d, w') \<and>
            (model = getSelectedModel ls \<longrightarrow>
               generatePresentationScript ls generateContent parse_script w = (Inr d, w', [Invoke model]) \<and>
               generateScriptFromImage ls generateContent parse_script w = (Inr d, w', [Invoke model]))) \<and>
         ((response_text r = None \<or> response_text r = Some []) \<and> parse_eval ''{}'' = Inr raw \<and>
          raw_pronunciation raw = Absent \<and> raw_fluency raw = Absent \<and> raw_intonation raw = Absent \<and>
          raw_vocabulary raw = Absent \<and> raw_grammar raw = Absent \<and> raw_taskFulfillment raw = Absent \<longrightarrow>
            evaluation_callback ls generateContent parse_eval level today model w
              = (Resolves \<lparr>pronunciation = 0, fluency = 0, intonation = 0, vocabulary = 0, grammar = 0,
                           taskFulfillment = 0, score = 0, perceivedLevel = level, keyVocabulary = [],
                           evaluationDate = today, other = raw_other raw\<rparr>, w') \<and>
            (model = getSelectedModel ls \<longrightarrow>
               evaluatePresentation ls generateContent parse_eval level today w
                 = (Inr \<lparr>pronunciation = 0, fluency = 0, intonation = 0, vocabulary = 0, grammar = 0,
                         taskFulfillment = 0, score = 0, perceivedLevel = level, keyVocabulary = [],
                         evaluationDate = today, other = raw_other raw\<rparr>, w', [Invoke model]))) \<and>
         (\<forall>t e. response_text r = Some t \<and> t \<noteq> [] \<and> parse_script t = Inl e \<longrightarrow>
            script_callback ls generateContent parse_script model w = (Rejects e, w')) \<and>
         (\<forall>t e. response_text r = Some t \<and> t \<noteq> [] \<and> parse_eval t = Inl e \<longrightarrow>
            evaluation_callback ls generateContent parse_eval level today model w = (Rejects e, w'))"
proof (intro conjI impI allI)
  note a = api_attempt_resolved [where gen = generateContent and model = model and w = w, OF assms]
  {
    assume h: "(response_text r = None \<or> response_text r = Some []) \<and> parse_script DEFAULT_SCRIPT_TEXT = Inr d"
    then show c: "script_callback ls generateContent parse_script model w = (Resolves d, w')"
      unfolding script_callback_def a by (simp add: text_or_empty)
    assume m: "model = getSelectedModel ls"
    from c show "generatePresentationScript ls generateContent parse_script w = (Inr d, w', [Invoke model])"
      unfolding generatePresentationScript_def m
      by (intro callWithRetry_first_success) (simp_all add: DEFAULT_MAX_RETRIES_def)
    from c show "generateScriptFromImage ls generateContent parse_script w = (Inr d, w', [Invoke model])"
      unfolding generateScriptFromImage_def m
      by (intro callWithRetry_first_success) (simp_all add: DEFAULT_MAX_RETRIES_def)
  }
  {
    assume h: "(response_text r = None \<or> response_text r = Some []) \<and> parse_eval ''{}'' = Inr raw \<and>
          raw_pronunciation raw = Absent \<and> raw_fluency raw = Absent \<and> raw_intonation raw = Absent \<and>
          raw_vocabulary raw = Absent \<and> raw_grammar raw = Absent \<and> raw_taskFulfillment raw = Absent"
    then have e: "evaluation_result raw level today
           = \<lparr>pronunciation = 0, fluency = 0, intonation = 0, vocabulary = 0, grammar = 0,
              taskFulfillment = 0, score = 0, perceivedLevel = level, keyVocabulary = [],
              evaluationDate = today, other = raw_other raw\<rparr>"
      by (intro evaluation_of_empty) simp_all
    from h show c: "evaluation_callback ls generateContent parse_eval level today model w
              = (Resolves \<lparr>pronunciation = 0, fluency = 0, intonation = 0, vocabulary = 0, grammar = 0,
                           taskFulfillment = 0, score = 0, perceivedLevel = level, keyVocabulary = [],
                           evaluationDate = today, other = raw_other raw\<rparr>, w')"
      unfolding evaluation_callback_def a by (simp add: text_or_empty e)
    assume m: "model = getSelectedModel ls"
    from c show "evaluatePresentation ls generateContent parse_eval level today w
                 = (Inr \<lparr>pronunciation = 0, fluency = 0, intonation = 0, vocabulary = 0, grammar = 0,
                         taskFulfillment = 0, score = 0, perceivedLevel = level, keyVocabulary = [],
                         evaluationDate = today, other = raw_other raw\<rparr>, w', [Invoke model])"
      unfolding evaluatePresentation_def m
      by (intro callWithRetry_first_success) (simp_all add: DEFAULT_MAX_RETRIES_def)
  }
  {
    fix t e assume "response_text r = Some t \<and> t \<noteq> [] \<and> parse_script t = Inl e"
    then show "script_callback ls generateContent parse_script model w = (Rejects e, w')"
      unfolding script_callback_def a by (simp add: text_or_empty)
  }
  {
    fix t e assume "response_text r = Some t \<and> t \<noteq> [] \<and> parse_eval t = Inl e"
    then show "evaluation_callback ls generateContent parse_eval level today model w = (Rejects e, w')"
      unfolding evaluation_callback_def a by (simp add: text_or_empty)
  }
qed


theorem empty_body_default_witness:
  "generatePresentationScript \<lparr>gemini_api_key = Some ''k'', selected_model = None\<rparr> empty_service
      (literal_parse default_script) 0
     = (Inr default_script, 1, [Invoke ''gemini-3-flash-preview'']) \<and>
   evaluatePresentation \<lparr>gemini_api_key = Some ''k'', selected_model = None\<rparr> empty_service
      (literal_parse empty_raw) B1 ''3/11/2026'' 0
     = (Inr \<lparr>pronunciation = 0, fluency = 0, intonation = 0, vocabulary = 0, grammar = 0,
             taskFulfillment = 0, score = 0, perceivedLevel = B1, keyVocabulary = [],
             evaluationDate = ''3/11/2026'', other = ()\<rparr>, 1, [Invoke ''gemini-3-flash-preview''])"
proof -
  let ?ls = "\<lparr>gemini_api_key = Some ''k'', selected_model = None\<rparr>"
  let ?r = "\<lparr>response_text = None, response_audio = None\<rparr>"
  have k: "getApiKey ?ls = Inr ''k''" by (simp add: getApiKey_def)
  have n: "empty_service ''k'' ''gemini-3-flash-preview'' 0 = (Resolves ?r, 1)"
    by (simp add: empty_service_def)
  have m: "''gemini-3-flash-preview'' = getSelectedModel ?ls" by (simp add: getSelectedModel_def)
  have p1: "(response_text ?r = None \<or> response_text ?r = Some []) \<and>
      literal_parse default_script DEFAULT_SCRIPT_TEXT = Inr default_script"
    by (simp add: literal_parse_def)
  have p2: "(response_text ?r = None \<or> response_text ?r = Some []) \<and>
      literal_parse empty_raw ''{}'' = Inr empty_raw \<and>
      raw_pronunciation empty_raw = Absent \<and> raw_fluency empty_raw = Absent \<and>
      raw_intonation empty_raw = Absent \<and> raw_vocabulary empty_raw = Absent \<and>
      raw_grammar empty_raw = Absent \<and> raw_taskFulfillment empty_raw = Absent"
    by (simp add: literal_parse_def empty_raw_def)
  note t = empty_body_default [where generateContent = empty_service
      and model = "''gemini-3-flash-preview''" and w = 0
      and parse_script = "literal_parse default_script"
      and d = default_script and parse_eval = "literal_parse empty_raw" and raw = empty_raw
      and level = B1 and today = "''3/11/2026''", OF k n]
  from t [THEN conjunct1, rule_format, OF p1, THEN conjunct2, rule_format, OF m, THEN conjunct1]
    t [THEN conjunct2, THEN conjunct1, rule_format, OF p2, THEN conjunct2, rule_format, OF m]
  show ?thesis by (simp add: empty_raw_def)
qed

lemma syntax_error_class: "\<not> isTimeoutError syntax_error" "\<not> isQuotaError syntax_error"
  by code_simp+

text \<open>
  The claim as stated fails for a body that is not empty and not JSON: with a service that
  answers \<open>oops\<close> for every model, the script generator and the evaluator both end with
  the aggregate error that embeds the parser's message, after one attempt per model.
\<close>

theorem unparseable_body_counterexample:
  "oops_service ''k'' ''gemini-3-flash-preview'' 0
     = (Resolves \<lparr>response_text = Some ''oops'', response_audio = None\<rparr>, 1) \<and>
   literal_parse default_script ''oops'' = Inl syntax_error \<and>
   generatePresentationScript \<lparr>gemini_api_key = Some ''k'', selected_model = None\<rparr> oops_service
      (literal_parse default_script) 0
     = (Inl (new_Error (all_models_failed_message ''Unexpected token o in JSON at position 0'')), 3,
        [Invoke ''gemini-3-flash-preview'', Invoke ''gemini-3-pro-preview'', Invoke ''gemini-2.5-flash'']) \<and>
   evaluatePresentation \<lparr>gemini_api_key = Some ''k'', selected_model = None\<rparr> oops_service
      (literal_parse empty_raw) B1 ''3/11/2026'' 0
     = (Inl (new_Error (all_models_failed_message ''Unexpected token o in JSON at position 0'')), 3,
        [Invoke ''gemini-3-flash-preview'', Invoke ''gemini-3-pro-preview'', Invoke ''gemini-2.5-flash''])"
proof -
  let ?ls = "\<lparr>gemini_api_key = Some ''k'', selected_model = None\<rparr>"
  have k: "getApiKey ?ls = Inr ''k''" by (simp add: getApiKey_def)
  have o: "oops_service ''k'' model n = (Resolves \<lparr>response_text = Some ''oops'', response_audio = None\<rparr>, n + 1)"
    for model n by (simp add: oops_service_def)
  have l: "literal_parse d ''oops'' = Inl syntax_error" for d :: 'x
    by (simp add: literal_parse_def DEFAULT_SCRIPT_TEXT_def)
  have s: "script_callback ?ls oops_service (literal_parse default_script) model n = (Rejects syntax_error, n + 1)"
    for model n
    unfolding script_callback_def api_attempt_resolved [where gen = oops_service, OF k o]
    by (simp add: text_or_def l)
  have e: "evaluation_callback ?ls oops_service (literal_parse empty_raw) B1 ''3/11/2026'' model n
             = (Rejects syntax_error, n + 1)" for model n
    unfolding evaluation_callback_def api_attempt_resolved [where gen = oops_service, OF k o]
    by (simp add: text_or_def l)
  have m: "errMsg (Some syntax_error) = ''Unexpected token o in JSON at position 0''"
    by (simp add: errMsg_def or_else_def syntax_error_def)
  have "generatePresentationScript ?ls oops_service (literal_parse default_script) 0
     = (Inl (new_Error (all_models_failed_message ''Unexpected token o in JSON at position 0'')), 3,
        [Invoke ''gemini-3-flash-preview'', Invoke ''gemini-3-pro-preview'', Invoke ''gemini-2.5-flash''])"
    unfolding generatePresentationScript_def
    by (subst callWithRetry_all_reject_fold [where e = syntax_error])
       (simp_all add: s syntax_error_class m default_candidates DEFAULT_MAX_RETRIES_def)
  moreover have "evaluatePresentation ?ls oops_service (literal_parse empty_raw) B1 ''3/11/2026'' 0
     = (Inl (new_Error (all_models_failed_message ''Unexpected token o in JSON at position 0'')), 3,
        [Invoke ''gemini-3-flash-preview'', Invoke ''gemini-3-pro-preview'', Invoke ''gemini-2.5-flash''])"
    unfolding evaluatePresentation_def
    by (subst callWithRetry_all_reject_fold [where e = syntax_error])
       (simp_all add: e syntax_error_class m default_candidates DEFAULT_MAX_RETRIES_def)
  ultimately show ?thesis using o [of "''gemini-3-flash-preview''" 0] l [of default_script] by simp
qed

end
